theory Spec2Isabelle
  imports Main
begin

section \<open>Symbols, errors and the lexicon tables\<close>

text \<open>
  A symbol is the dictionary built by \<^verbatim>\<open>detect_pitches\<close>: it always has the two keys
  \<^verbatim>\<open>'type'\<close> and \<^verbatim>\<open>'pitch'\<close> (the pitch is the empty string for symbols that are not
  classified). Python compares dictionaries by content, which is equality of records.
\<close>

record symbol =
  type :: string
  pitch :: string

text \<open>
  The exceptions the converter can end with. \<open>SystemExit\<close> is the explicit abort of
  \<^verbatim>\<open>sys.exit(message)\<close>; the other three are raised by the interpreter: reading a local
  variable that was never assigned, a dictionary lookup with a missing key, and a list
  index out of range.
\<close>

datatype pykey = StrKey string | IntKey int

datatype error =
    SystemExit string
  | UnboundLocalError string
  | KeyError pykey
  | IndexError

definition RESTS_MEI :: "(string \<times> string) list" where
  "RESTS_MEI =
    [(''r-lo'', ''longa''), (''r-br'', ''brevis''), (''r-sb'', ''semibrevis''),
     (''r-mi'', ''minima''), (''r-sm'', ''semiminima''), (''r-fu'', ''fusa''),
     (''r-se'', ''semifusa'')]"

definition NOTES_MEI :: "(string \<times> string) list" where
  "NOTES_MEI =
    [(''ma'', ''maxima''), (''lo'', ''longa''), (''bre'', ''brevis''),
     (''sebre'', ''semibrevis''), (''mi'', ''minima''), (''sm'', ''semiminima''),
     (''fu'', ''fusa''), (''sf'', ''semifusa''), (''br'', ''brevis''),
     (''sb'', ''semibrevis''), (''li'', ''semibrevis'')]"

definition NOTES_HUMDRUM :: "(string \<times> string) list" where
  "NOTES_HUMDRUM =
    [(''ma'', ''X''), (''lo'', ''L''), (''bre'', ''S''), (''sebre'', ''s''),
     (''mi'', ''M''), (''sm'', ''m''), (''fu'', ''U''), (''sf'', ''u''),
     (''br'', ''S~''), (''sb'', ''s~''), (''li'', ''[s'')]"

definition RESTS_HUMDRUM :: "(string \<times> string) list" where
  "RESTS_HUMDRUM =
    [(''r-lo'', ''Lr''), (''r-br'', ''Sr''), (''r-sb'', ''sr''), (''r-mi'', ''Mr''),
     (''r-sm'', ''mr''), (''r-fu'', ''Ur''), (''r-se'', ''ur'')]"

definition CLEFS_HUMDRUM :: "(string \<times> string) list" where
  "CLEFS_HUMDRUM =
    [(''c-c-g'', ''*clefC2''), (''c-c-e'', ''*clefC1''), (''c-c-b'', ''*clefC3''),
     (''c-c-d'', ''*clefC4''), (''c-g'', ''*clefG2''), (''c-f-b'', ''*clefF3''),
     (''c-f'', ''*clefF4'')]"

definition MENSURAL_NOTE_STEPS :: "(string \<times> int) list" where
  "MENSURAL_NOTE_STEPS =
    [(''c0'', 0), (''d0'', 1), (''e0'', 2), (''f0'', 3), (''g0'', 4), (''a0'', 5), (''b0'', 6),
     (''c1'', 7), (''d1'', 8), (''e1'', 9), (''f1'', 10), (''g1'', 11), (''a1'', 12), (''b1'', 13),
     (''c2'', 14), (''d2'', 15), (''e2'', 16), (''f2'', 17), (''g2'', 18), (''a2'', 19), (''b2'', 20)]"

definition RELATIVE_NOTE_STEPS :: "(int \<times> string) list" where
  "RELATIVE_NOTE_STEPS =
    [(- 14, ''c''), (- 13, ''d''), (- 12, ''e''), (- 11, ''f''), (- 10, ''g''), (- 9, ''a''), (- 8, ''b''),
     (- 7, ''c''), (- 6, ''d''), (- 5, ''e''), (- 4, ''f''), (- 3, ''g''), (- 2, ''a''), (- 1, ''b''),
     (0, ''c''), (1, ''d''), (2, ''e''), (3, ''f''), (4, ''g''), (5, ''a''), (6, ''b''),
     (7, ''c''), (8, ''d''), (9, ''e''), (10, ''f''), (11, ''g''), (12, ''a''), (13, ''b'')]"

section \<open>Clef, mensuration and pitch analysis\<close>

text \<open>
  \<^verbatim>\<open>analyse_clef\<close> and \<^verbatim>\<open>analyse_mensuration\<close> are chains of \<^verbatim>\<open>if/elif\<close> without a final
  \<^verbatim>\<open>else\<close>: on a code outside the chain the \<^verbatim>\<open>return\<close> reads a variable that was never
  assigned.
\<close>

definition analyse_clef :: "symbol \<Rightarrow> error + (string \<times> string)" where
  "analyse_clef clef =
    (let p = pitch clef in
     if p = ''c-g'' then Inr (''G'', ''2'')
     else if p = ''c-c-e'' then Inr (''C'', ''1'')
     else if p = ''c-c-g'' then Inr (''C'', ''2'')
     else if p = ''c-c-b'' then Inr (''C'', ''3'')
     else if p = ''c-c-d'' then Inr (''C'', ''4'')
     else if p = ''c-f-b'' then Inr (''F'', ''3'')
     else if p = ''c-f'' then Inr (''F'', ''4'')
     else Inl (UnboundLocalError ''shape''))"

definition analyse_mensuration :: "symbol \<Rightarrow> error + (string \<times> string)" where
  "analyse_mensuration symbol =
    (let p = pitch symbol in
     if p = ''met_c'' then Inr (''C'', '''')
     else if p = ''al-br'' then Inr (''C'', ''1'')
     else if p = ''met_o_cut'' then Inr (''O'', ''1'')
     else Inl (UnboundLocalError ''sign''))"

text \<open>
  The staff position that the clef assigns to middle c, looked up in
  \<open>MENSURAL_NOTE_STEPS\<close> under the fixed key that the source writes for each clef code.
  \<open>None\<close> stands for the variable \<^verbatim>\<open>clefline\<close> left unassigned.
\<close>

definition clefline_of :: "string \<Rightarrow> int option" where
  "clefline_of c =
    (if c = ''c-c-g'' then map_of MENSURAL_NOTE_STEPS ''g1''
     else if c = ''c-c-e'' then map_of MENSURAL_NOTE_STEPS ''e1''
     else if c = ''c-c-b'' then map_of MENSURAL_NOTE_STEPS ''b1''
     else if c = ''c-c-d'' then map_of MENSURAL_NOTE_STEPS ''d2''
     else if c = ''c-g'' then map_of MENSURAL_NOTE_STEPS ''c1''
     else if c = ''c-f-b'' then map_of MENSURAL_NOTE_STEPS ''f2''
     else if c = ''c-f'' then map_of MENSURAL_NOTE_STEPS ''a2''
     else None)"

text \<open>A lookup \<^verbatim>\<open>RELATIVE_NOTE_STEPS[k]\<close> paired with the octave, or the \<open>KeyError\<close>.\<close>

definition relative_step :: "int \<Rightarrow> int \<Rightarrow> error + (int \<times> string)" where
  "relative_step octave k =
    (case map_of RELATIVE_NOTE_STEPS k of
       None \<Rightarrow> Inl (KeyError (IntKey k))
     | Some relative_pitch \<Rightarrow> Inr (octave, relative_pitch))"

definition analyse_note :: "symbol \<Rightarrow> string \<Rightarrow> error + (int \<times> string)" where
  "analyse_note clef p =
    (let octave = 4 in
     case map_of MENSURAL_NOTE_STEPS p of
       None \<Rightarrow> Inl (KeyError (StrKey p))
     | Some pitchline \<Rightarrow>
        (case clefline_of (pitch clef) of
           None \<Rightarrow> Inl (UnboundLocalError ''clefline'')
         | Some clefline \<Rightarrow>
            (let rel_pitch = pitchline - clefline in
             if - 7 \<le> rel_pitch \<and> rel_pitch < 0 then relative_step (octave - 1) (7 + rel_pitch)
             else if rel_pitch > 6 then relative_step (octave + 1) rel_pitch
             else if - 14 \<le> rel_pitch \<and> rel_pitch < - 7 then relative_step (octave - 2) (7 + rel_pitch)
             else relative_step octave rel_pitch)))"

text \<open>\<^verbatim>\<open>str.upper\<close> on the ASCII letters; every other character is left as it is.\<close>

definition upper_char :: "char \<Rightarrow> char" where
  "upper_char c =
    (case map_of (zip ''abcdefghijklmnopqrstuvwxyz'' ''ABCDEFGHIJKLMNOPQRSTUVWXYZ'') c of
       None \<Rightarrow> c
     | Some u \<Rightarrow> u)"

definition upper :: "string \<Rightarrow> string" where
  "upper s = map upper_char s"

definition get_humdrum_pitch :: "int \<Rightarrow> string \<Rightarrow> string \<Rightarrow> string" where
  "get_humdrum_pitch oct pname line =
    (if oct = 2 then line @ upper pname @ upper pname
     else if oct = 3 then line @ upper pname
     else if oct = 4 then line @ pname
     else if oct = 5 then line @ pname @ pname
     else line)"

section \<open>Strings of numbers\<close>

definition digit_char :: "nat \<Rightarrow> char" where
  "digit_char n = ''0123456789'' ! n"

fun str_nat :: "nat \<Rightarrow> string" where
  "str_nat n = (if n < 10 then [digit_char n] else str_nat (n div 10) @ [digit_char (n mod 10)])"

declare str_nat.simps [simp del]

text \<open>\<^verbatim>\<open>str(i)\<close> for an integer and \<^verbatim>\<open>s.zfill(width)\<close> for the string of a number without sign.\<close>

definition str_int :: "int \<Rightarrow> string" where
  "str_int i = (if i < 0 then ''-'' @ str_nat (nat (- i)) else str_nat (nat i))"

definition zfill :: "nat \<Rightarrow> string \<Rightarrow> string" where
  "zfill width s = replicate (width - length s) (CHR ''0'') @ s"

text \<open>The test \<^verbatim>\<open>sub in s\<close> on strings.\<close>

fun starts_with :: "string \<Rightarrow> string \<Rightarrow> bool" where
  "starts_with [] s = True"
| "starts_with (a # as) [] = False"
| "starts_with (a # as) (b # bs) = (a = b \<and> starts_with as bs)"

fun contains :: "string \<Rightarrow> string \<Rightarrow> bool" where
  "contains sub [] = (sub = [])"
| "contains sub (b # bs) = (starts_with sub (b # bs) \<or> contains sub bs)"

section \<open>The element tree and the identifier pool\<close>

text \<open>
  An element of the output tree has a tag, its attributes in the order in which they
  were first set, and its children. \<^verbatim>\<open>element.set(key, value)\<close> overwrites the value of
  a key that is present and adds the key at the end otherwise.
\<close>

type_synonym attrs = "(string \<times> string) list"

datatype element = Element (tag: string) (attrib: attrs) (children: "element list")

fun set_attr :: "attrs \<Rightarrow> string \<Rightarrow> string \<Rightarrow> attrs" where
  "set_attr [] k v = [(k, v)]"
| "set_attr ((k', v') # as) k v =
     (if k' = k then (k, v) # as else (k', v') # set_attr as k v)"

definition set_on :: "string \<Rightarrow> string \<Rightarrow> element \<Rightarrow> element" where
  "set_on k v e = Element (tag e) (set_attr (attrib e) k v) (children e)"

definition append_to :: "element \<Rightarrow> element \<Rightarrow> element" where
  "append_to child e = Element (tag e) (attrib e) (children e @ [child])"

definition update_at :: "nat \<Rightarrow> (element \<Rightarrow> element) \<Rightarrow> element list \<Rightarrow> element list" where
  "update_at i f es = (if i < length es then es[i := f (es ! i)] else es)"

definition xml_id :: string where
  "xml_id = ''{http://www.w3.org/XML/1998/namespace}id''"

text \<open>
  The expression \<^verbatim>\<open>f'{prefix}-{ids[increment_idcounter()]}'\<close>: the global counter is
  incremented first, and the pool is read at the new value. The first entry handed out
  is \<^verbatim>\<open>ids[1]\<close>; reading past the end of the pool raises \<open>IndexError\<close>.
\<close>

definition increment_idcounter :: "nat \<Rightarrow> nat" where
  "increment_idcounter id_counter = id_counter + 1"

definition new_id :: "string list \<Rightarrow> nat \<Rightarrow> string \<Rightarrow> error + (string \<times> nat)" where
  "new_id pool c prefix =
    (let c' = increment_idcounter c in
     if c' < length pool then Inr (prefix @ ''-'' @ pool ! c', c') else Inl IndexError)"

fun new_ids :: "string list \<Rightarrow> nat \<Rightarrow> string list \<Rightarrow> error + (string list \<times> nat)" where
  "new_ids pool c [] = Inr ([], c)"
| "new_ids pool c (p # ps) =
    (case new_id pool c p of
       Inl e \<Rightarrow> Inl e
     | Inr (x, c') \<Rightarrow>
        (case new_ids pool c' ps of
           Inl e \<Rightarrow> Inl e
         | Inr (xs, c'') \<Rightarrow> Inr (x # xs, c'')))"

text \<open>
  One output document. \<^verbatim>\<open>create_mei_declarations\<close> builds a tree of fixed shape
  (music, body, mdiv, score, scoreDef, staffGrp, staffDef with the clef and keySig
  elements, section, staff, layer) and returns the three elements that the converter
  goes on changing: the clef, the key signature and the layer. The record keeps the
  eight identifiers of the fixed part in the order of their creation (mdiv, score,
  scoreDef, staffGrp, staffDef, section, staff, layer), the attributes of the clef and
  of the keySig element, and the children of the layer. The header element made by
  \<^verbatim>\<open>create_meihead\<close> carries the wall-clock time and no identifier; it is not part of
  the record.
\<close>

record document =
  scaffold :: "string list"
  xml_clef :: attrs
  xml_keySign :: attrs
  xml_layer :: "element list"

definition create_mei_declarations :: "string list \<Rightarrow> nat \<Rightarrow> error + (document \<times> nat)" where
  "create_mei_declarations pool c =
    (case new_ids pool c
            [''mdiv'', ''score'', ''scoreDef'', ''staffGrp'', ''staffDef'', ''section'',
             ''staff'', ''layer''] of
       Inl e \<Rightarrow> Inl e
     | Inr (xs, c') \<Rightarrow>
         Inr (\<lparr>scaffold = xs, xml_clef = [], xml_keySign = [], xml_layer = []\<rparr>, c'))"

section \<open>The state of the converter\<close>

text \<open>
  \<open>initial_clef\<close> is a local variable that the source never initialises: it is
  unassigned until a staff that begins with a clef is found, and the source then tests
  it against \<^verbatim>\<open>None\<close>. \<open>mensur\<close> and \<open>xml_lig\<close> are references to elements: unassigned,
  a child of the layer of the document being built (by its index: children of the layer
  are only added at the end, and only the last one is ever moved away), or an element of
  a document that has been written already, where a change has no visible effect.
\<close>

datatype clef_var = NotAssigned | NoneValue | ClefDict symbol

datatype ref = Unbound | Current nat | Finalized

text \<open>
  One finalized document: the name of the MEI file, the document, and, when the Humdrum
  output was requested, the name of the second file and its lines (the file holds them
  joined by newlines).
\<close>

record written =
  save_name :: string
  mei_file :: document
  mens_file :: "(string \<times> string list) option"

record env =
  ids :: "string list"
  humdrum :: bool
  stafflist :: "symbol list list"
  metadata :: "string list"

record state =
  id_counter :: nat
  used_filenames :: "string list"
  outputs :: "written list"
  filename_counter :: nat
  filename :: string
  humdrum_string :: "string list"
  mei :: document
  first_staff :: bool
  saved :: bool
  initial_clef :: clef_var
  clef :: "symbol option"
  initial_key :: "string option"
  sharp_found :: bool
  flat_found :: bool
  ligature :: bool
  mensur :: ref
  xml_lig :: ref
  humdrum_line :: "string option"
  line_humdrum :: "string option"

text \<open>
  A computation either goes on with a value or ends the run with an exception; the
  exception is paired with the documents that were written before it.
\<close>

type_synonym 'a result = "(error \<times> written list) + 'a"

definition raise :: "state \<Rightarrow> error \<Rightarrow> 'a result" where
  "raise st e = Inl (e, outputs st)"

definition alloc :: "env \<Rightarrow> string \<Rightarrow> state \<Rightarrow> (string \<times> state) result" where
  "alloc E prefix st =
    (case new_id (ids E) (id_counter st) prefix of
       Inl e \<Rightarrow> raise st e
     | Inr (x, c) \<Rightarrow> Inr (x, st\<lparr>id_counter := c\<rparr>))"

definition add_child :: "element \<Rightarrow> state \<Rightarrow> state" where
  "add_child e st = st\<lparr>mei := (mei st)\<lparr>xml_layer := xml_layer (mei st) @ [e]\<rparr>\<rparr>"

definition change_child :: "nat \<Rightarrow> (element \<Rightarrow> element) \<Rightarrow> state \<Rightarrow> state" where
  "change_child i f st = st\<lparr>mei := (mei st)\<lparr>xml_layer := update_at i f (xml_layer (mei st))\<rparr>\<rparr>"

section \<open>Writing a document\<close>

text \<open>
  \<^verbatim>\<open>save_mei_file\<close>. The name of a first use is built from the label of the current
  staff, \<^verbatim>\<open>metadata[ix_staff]\<close>, while the test and the later names use the variable
  \<^verbatim>\<open>filename\<close>; after the name is chosen \<^verbatim>\<open>filename\<close> becomes the label of the next staff.
  The name of the Humdrum file is \<^verbatim>\<open>save_name[:-3]\<close> followed by \<^verbatim>\<open>.mens\<close>. The staff
  index comes from the enumeration of \<open>stafflist\<close>, and \<open>metadata\<close> has one label for
  each staff, so both reads of \<open>metadata\<close> are in range.
\<close>

definition save_mei_file :: "env \<Rightarrow> nat \<Rightarrow> state \<Rightarrow> state" where
  "save_mei_file E ix_staff st =
    (let fresh = (filename st \<notin> set (used_filenames st));
         counter = (if fresh then 1 else filename_counter st + 1);
         name = (if fresh then metadata E ! ix_staff @ ''_01.mei''
                 else filename st @ ''_'' @ zfill 2 (str_nat counter) @ ''.mei'');
         used = (if fresh then used_filenames st @ [filename st] else used_filenames st);
         next_filename = (if ix_staff + 1 = length (stafflist E) then filename st
                          else metadata E ! (ix_staff + 1));
         doc = \<lparr>save_name = name, mei_file = mei st,
                mens_file = (if humdrum E
                             then Some (take (length name - 3) name @ ''.mens'', humdrum_string st)
                             else None)\<rparr>
     in st\<lparr>used_filenames := used, filename_counter := counter, filename := next_filename,
           outputs := outputs st @ [doc]\<rparr>)"

section \<open>One symbol\<close>

text \<open>
  The body of the loop over the symbols of a staff is a sequence of \<^verbatim>\<open>if\<close> statements;
  some of them end with \<^verbatim>\<open>continue\<close>, the others fall through to the statements that
  follow. Each statement is a block that returns how it was left.
\<close>

datatype flow = Continue state | Fallthrough state

definition andthen :: "flow result \<Rightarrow> (state \<Rightarrow> flow result) \<Rightarrow> flow result" where
  "andthen r f =
    (case r of
       Inl e \<Rightarrow> Inl e
     | Inr (Continue st) \<Rightarrow> Inr (Continue st)
     | Inr (Fallthrough st) \<Rightarrow> f st)"

definition retire :: "ref \<Rightarrow> ref" where
  "retire r = (case r of Unbound \<Rightarrow> Unbound | Current i \<Rightarrow> Finalized | Finalized \<Rightarrow> Finalized)"

definition set_proportion :: "element \<Rightarrow> element" where
  "set_proportion e = set_on ''numbase'' ''2'' (set_on ''num'' ''3'' e)"

definition mens_block :: "env \<Rightarrow> symbol \<Rightarrow> state \<Rightarrow> flow result" where
  "mens_block E symbol st =
    (if type symbol = ''mens'' then
       (if pitch symbol = ''met_3_2'' then
          (case mensur st of
             Unbound \<Rightarrow> raise st (UnboundLocalError ''mensur'')
           | Current i \<Rightarrow>
               (let st1 = change_child i set_proportion st in
                if humdrum E then
                  (case humdrum_string st1 of
                     [] \<Rightarrow> raise st1 IndexError
                   | l # ls \<Rightarrow>
                       Inr (Continue (st1\<lparr>humdrum_string :=
                              butlast (l # ls) @ [butlast (last (l # ls)) @ ''3/2)'']\<rparr>)))
                else Inr (Continue st1))
           | Finalized \<Rightarrow>
               (if humdrum E then
                  (case humdrum_string st of
                     [] \<Rightarrow> raise st IndexError
                   | l # ls \<Rightarrow>
                       Inr (Continue (st\<lparr>humdrum_string :=
                              butlast (l # ls) @ [butlast (last (l # ls)) @ ''3/2)'']\<rparr>)))
                else Inr (Continue st)))
        else
          (case alloc E ''mens'' st of
             Inl e \<Rightarrow> Inl e
           | Inr (x, st1) \<Rightarrow>
              (case analyse_mensuration symbol of
                 Inl e \<Rightarrow> raise st1 e
               | Inr (sign, slash) \<Rightarrow>
                  (let el = Element ''mensur''
                              ([(xml_id, x), (''prolatio'', ''2''), (''sign'', sign)]
                               @ (if slash = [] then [] else [(''slash'', slash)])) [];
                       st2 = (add_child el st1)\<lparr>mensur := Current (length (xml_layer (mei st1)))\<rparr>;
                       st3 = (if humdrum E
                              then st2\<lparr>humdrum_line :=
                                     Some (''*met('' @ sign @ (if slash = [] then [] else ''|'') @ '')'')\<rparr>
                              else st2)
                   in Inr (Fallthrough st3)))))
     else Inr (Fallthrough st))"

definition dot_block :: "env \<Rightarrow> symbol \<Rightarrow> state \<Rightarrow> flow result" where
  "dot_block E symbol st =
    (if type symbol = ''dot'' then
       (case alloc E ''dot'' st of
          Inl e \<Rightarrow> Inl e
        | Inr (x, st1) \<Rightarrow>
           (let st2 = add_child (Element ''dot'' [(xml_id, x)] []) st1 in
            if humdrum E then
              (case humdrum_string st2 of
                 [] \<Rightarrow> raise st2 IndexError
               | l # ls \<Rightarrow>
                  (case last (l # ls) of
                     [] \<Rightarrow> raise st2 IndexError
                   | ch # rest \<Rightarrow>
                       Inr (Continue (st2\<lparr>humdrum_string :=
                              butlast (l # ls) @ [ch # '':'' @ rest]\<rparr>))))
            else Inr (Fallthrough st2)))
     else Inr (Fallthrough st))"

definition rest_block :: "env \<Rightarrow> symbol \<Rightarrow> state \<Rightarrow> flow result" where
  "rest_block E symbol st =
    (case map_of RESTS_MEI (type symbol) of
       None \<Rightarrow> Inr (Fallthrough st)
     | Some dur \<Rightarrow>
        (case alloc E ''rest'' st of
           Inl e \<Rightarrow> Inl e
         | Inr (x, st1) \<Rightarrow>
            (let st2 = add_child (Element ''rest'' [(xml_id, x), (''dur'', dur)] []) st1 in
             if humdrum E then
               (case map_of RESTS_HUMDRUM (type symbol) of
                  None \<Rightarrow> raise st2 (KeyError (StrKey (type symbol)))
                | Some l \<Rightarrow> Inr (Fallthrough (st2\<lparr>humdrum_line := Some l\<rparr>)))
             else Inr (Fallthrough st2))))"

text \<open>
  The value of \<^verbatim>\<open>line_humdrum\<close> after the three statements that precede the ligature
  test of a note: the duration sigil (kept from the symbol before when a ligature is open
  and the note is not coloured), then the pitch suffix.
\<close>

definition note_line :: "env \<Rightarrow> string \<Rightarrow> int \<Rightarrow> string \<Rightarrow> state \<Rightarrow> state result" where
  "note_line E t oct pname st =
    (if humdrum E then
       (case map_of NOTES_HUMDRUM t of
          None \<Rightarrow> raise st (KeyError (StrKey t))
        | Some sigil \<Rightarrow>
           (let st1 = (if \<not> ligature st then st\<lparr>line_humdrum := Some sigil\<rparr> else st);
                st2 = (if t = ''br'' \<or> t = ''sb'' then st1\<lparr>line_humdrum := Some sigil\<rparr> else st1)
            in case line_humdrum st2 of
                 None \<Rightarrow> raise st2 (UnboundLocalError ''line_humdrum'')
               | Some l \<Rightarrow> Inr (st2\<lparr>line_humdrum := Some (get_humdrum_pitch oct pname l)\<rparr>)))
     else Inr st)"

text \<open>
  The first note of a ligature: a new ligature element is added to the layer and the note,
  until then the last child of the layer, is moved into it.
\<close>

definition open_ligature :: "env \<Rightarrow> int \<Rightarrow> string \<Rightarrow> element \<Rightarrow> state \<Rightarrow> flow result" where
  "open_ligature E oct pname note st =
    (case alloc E ''ligature'' st of
       Inl e \<Rightarrow> Inl e
     | Inr (y, st1) \<Rightarrow>
        (let st2 = (add_child (Element ''ligature'' [(xml_id, y), (''form'', ''recta'')] [note]) st1)
                     \<lparr>xml_lig := Current (length (xml_layer (mei st1))), ligature := True\<rparr>;
             l = get_humdrum_pitch oct pname ''[s''
         in if humdrum E
            then Inr (Continue (st2\<lparr>line_humdrum := Some l,
                                    humdrum_string := humdrum_string st2 @ [l]\<rparr>))
            else Inr (Continue st2)))"

text \<open>
  A note that is not the first of a ligature. The changes of its attributes (the forced
  duration, the accidentals) do not depend on where the note element stands in the tree,
  so the element is built with its final attributes and then put in its place: at the end
  of the layer, or, when a ligature is open, at the end of the ligature element. A
  ligature element of a document that was written before takes the note out of the
  document being built.
\<close>

definition close_ligature :: "env \<Rightarrow> int \<Rightarrow> string \<Rightarrow> element \<Rightarrow> state \<Rightarrow> element \<times> state" where
  "close_ligature E oct pname note st =
    (if ligature st then
       (let l = get_humdrum_pitch oct pname ''s'' @ '']'';
            st1 = st\<lparr>ligature := False\<rparr>
        in (set_on ''dur'' ''semibrevis'' note,
            if humdrum E then st1\<lparr>line_humdrum := Some l, humdrum_line := Some l\<rparr> else st1))
     else (note, st))"

definition apply_sharp :: "env \<Rightarrow> element \<Rightarrow> state \<Rightarrow> element \<times> state" where
  "apply_sharp E note st =
    (if sharp_found st then
       (set_on ''accid'' ''s'' note,
        (if humdrum E
         then st\<lparr>sharp_found := False, line_humdrum := map_option (\<lambda>l. l @ ''#'') (line_humdrum st)\<rparr>
         else st\<lparr>sharp_found := False\<rparr>))
     else (note, st))"

definition apply_flat :: "env \<Rightarrow> element \<Rightarrow> state \<Rightarrow> element \<times> state" where
  "apply_flat E note st =
    (if flat_found st then
       (set_on ''accid'' ''f'' note,
        (if humdrum E
         then st\<lparr>flat_found := False, line_humdrum := map_option (\<lambda>l. l @ ''-'') (line_humdrum st)\<rparr>
         else st\<lparr>flat_found := False\<rparr>))
     else (note, st))"

definition place_note :: "bool \<Rightarrow> ref \<Rightarrow> element \<Rightarrow> state \<Rightarrow> state" where
  "place_note in_ligature lig note st =
    (if in_ligature then
       (case lig of
          Unbound \<Rightarrow> st
        | Current i \<Rightarrow> change_child i (append_to note) st
        | Finalized \<Rightarrow> st)
     else add_child note st)"

definition plain_note :: "env \<Rightarrow> int \<Rightarrow> string \<Rightarrow> element \<Rightarrow> state \<Rightarrow> flow result" where
  "plain_note E oct pname note st =
    (if ligature st \<and> xml_lig st = Unbound then raise st (UnboundLocalError ''xml_lig'')
     else
       (let in_ligature = ligature st;
            (note1, st1) = close_ligature E oct pname note st;
            (note2, st2) = apply_sharp E note1 st1;
            (note3, st3) = apply_flat E note2 st2;
            st4 = (if humdrum E then st3\<lparr>humdrum_line := line_humdrum st3\<rparr> else st3)
        in Inr (Fallthrough (place_note in_ligature (xml_lig st) note3 st4))))"

definition note_block :: "env \<Rightarrow> symbol \<Rightarrow> state \<Rightarrow> flow result" where
  "note_block E symbol st =
    (let t = type symbol in
     case map_of NOTES_MEI t of
       None \<Rightarrow> Inr (Fallthrough st)
     | Some dur \<Rightarrow>
        (case clef st of
           None \<Rightarrow> raise st (UnboundLocalError ''clef'')
         | Some c \<Rightarrow>
            (case analyse_note c (pitch symbol) of
               Inl e \<Rightarrow> raise st e
             | Inr (oct, pname) \<Rightarrow>
                (case alloc E ''note'' st of
                   Inl e \<Rightarrow> Inl e
                 | Inr (x, st1) \<Rightarrow>
                    (let note0 = Element ''note''
                                   [(xml_id, x), (''dur'', dur), (''oct'', str_int oct),
                                    (''pname'', pname)] [];
                         note = (if t = ''br'' \<or> t = ''sb''
                                 then set_on ''colored'' ''true'' note0 else note0)
                     in case note_line E t oct pname st1 of
                          Inl e \<Rightarrow> Inl e
                        | Inr st2 \<Rightarrow>
                            if t = ''li'' then open_ligature E oct pname note st2
                            else plain_note E oct pname note st2)))))"

text \<open>
  A barline closes the document: it is written, and a new document is created. The
  variables \<open>mensur\<close> and \<open>xml_lig\<close> keep their elements, which now belong to a written
  document; no other variable of the loop is changed here.
\<close>

definition bar_block :: "env \<Rightarrow> nat \<Rightarrow> symbol \<Rightarrow> state \<Rightarrow> flow result" where
  "bar_block E ix_staff symbol st =
    (if type symbol = ''bar'' then
       (case alloc E ''barline'' st of
          Inl e \<Rightarrow> Inl e
        | Inr (x, st1) \<Rightarrow>
           (let st2 = add_child (Element ''barLine'' [(xml_id, x), (''form'', ''dbl'')] []) st1;
                st3 = (if humdrum E
                       then st2\<lparr>humdrum_string := humdrum_string st2 @ [''=||'', ''*-'']\<rparr>
                       else st2);
                st4 = save_mei_file E ix_staff st3
            in case create_mei_declarations (ids E) (id_counter st4) of
                 Inl e \<Rightarrow> raise st4 e
               | Inr (d, c) \<Rightarrow>
                   Inr (Continue (st4\<lparr>mei := d, id_counter := c, first_staff := True,
                                       saved := True, mensur := retire (mensur st4),
                                       xml_lig := retire (xml_lig st4)\<rparr>))))
     else Inr (Fallthrough st))"

definition is_note :: "symbol \<Rightarrow> bool" where
  "is_note s = (map_of NOTES_MEI (type s) \<noteq> None)"

definition custos_block :: "env \<Rightarrow> nat \<Rightarrow> symbol \<Rightarrow> state \<Rightarrow> flow result" where
  "custos_block E ix_staff symbol st =
    (if type symbol = ''custos'' then
       (case alloc E ''custos'' st of
          Inl e \<Rightarrow> Inl e
        | Inr (x, st1) \<Rightarrow>
           (let st2 = (if humdrum E then st1\<lparr>line_humdrum := Some ''*custos''\<rparr> else st1);
                found = (if ix_staff + 1 < length (stafflist E)
                         then find is_note (stafflist E ! (ix_staff + 1)) else None)
            in case found of
                 None \<Rightarrow> Inr (Fallthrough (add_child (Element ''custos'' [(xml_id, x)] []) st2))
               | Some s \<Rightarrow>
                  (case clef st2 of
                     None \<Rightarrow> raise st2 (UnboundLocalError ''clef'')
                   | Some c \<Rightarrow>
                      (case analyse_note c (pitch s) of
                         Inl e \<Rightarrow> raise st2 e
                       | Inr (oct, pname) \<Rightarrow>
                          (let st3 = add_child (Element ''custos''
                                       [(xml_id, x), (''oct'', str_int oct), (''pname'', pname)] []) st2
                           in Inr (Fallthrough
                                (if humdrum E
                                 then st3\<lparr>humdrum_line := Some (get_humdrum_pitch oct pname ''*custos'')\<rparr>
                                 else st3)))))))
     else Inr (Fallthrough st))"

text \<open>The statements at the end of the loop body, reached by every block that falls through.\<close>

definition append_line :: "env \<Rightarrow> state \<Rightarrow> state result" where
  "append_line E st =
    (if humdrum E then
       (case humdrum_line st of
          None \<Rightarrow> raise st (UnboundLocalError ''humdrum_line'')
        | Some l \<Rightarrow>
            Inr (st\<lparr>humdrum_string := humdrum_string st @ [l]
                      @ (if contains ''custos'' l then [''!!LO:LB:g=z'', ''=-''] else [])\<rparr>))
     else Inr st)"

definition blocks :: "env \<Rightarrow> nat \<Rightarrow> symbol \<Rightarrow> state \<Rightarrow> state result" where
  "blocks E ix_staff symbol st =
    (case andthen (mens_block E symbol st) (\<lambda>st.
          andthen (dot_block E symbol st) (\<lambda>st.
          andthen (rest_block E symbol st) (\<lambda>st.
          andthen (note_block E symbol st) (\<lambda>st.
          andthen (bar_block E ix_staff symbol st) (\<lambda>st.
          custos_block E ix_staff symbol st))))) of
       Inl e \<Rightarrow> Inl e
     | Inr (Continue st') \<Rightarrow> Inr st'
     | Inr (Fallthrough st') \<Rightarrow> append_line E st')"

text \<open>
  The head of the loop body: the symbol equal to the initial clef, the key signature
  symbols at the second and third place of a staff, and the accidentals.
\<close>

definition accidentals_and_blocks :: "env \<Rightarrow> nat \<Rightarrow> symbol \<Rightarrow> state \<Rightarrow> state result" where
  "accidentals_and_blocks E ix_staff symbol st =
    (if type symbol = ''flat'' then Inr (st\<lparr>flat_found := True\<rparr>)
     else if type symbol = ''sharp'' then Inr (st\<lparr>sharp_found := True\<rparr>)
     else blocks E ix_staff symbol st)"

definition process_symbol :: "env \<Rightarrow> nat \<Rightarrow> nat \<Rightarrow> symbol \<Rightarrow> state \<Rightarrow> state result" where
  "process_symbol E ix_staff ix_symbol symbol st =
    (if initial_clef st = NotAssigned then raise st (UnboundLocalError ''initial_clef'')
     else if initial_clef st = ClefDict symbol then Inr (st\<lparr>clef := Some symbol\<rparr>)
     else
       (case initial_key st of
          None \<Rightarrow> raise st (UnboundLocalError ''initial_key'')
        | Some k \<Rightarrow>
           if type symbol = k \<and> ix_symbol = 1 then Inr st
           else if type symbol = k \<and> ix_symbol = 2 then
             (case clef st of
                None \<Rightarrow> raise st (UnboundLocalError ''clef'')
              | Some c \<Rightarrow>
                 if pitch c = ''c-c-g'' then Inr st
                 else accidentals_and_blocks E ix_staff symbol st)
           else accidentals_and_blocks E ix_staff symbol st))"

fun process_symbols :: "env \<Rightarrow> nat \<Rightarrow> nat \<Rightarrow> symbol list \<Rightarrow> state \<Rightarrow> state result" where
  "process_symbols E ix_staff ix_symbol [] st = Inr st"
| "process_symbols E ix_staff ix_symbol (symbol # rest) st =
    (case process_symbol E ix_staff ix_symbol symbol st of
       Inl e \<Rightarrow> Inl e
     | Inr st' \<Rightarrow> process_symbols E ix_staff (ix_symbol + 1) rest st')"

section \<open>One staff\<close>

text \<open>
  The search for the clef in the later staffs, \<^verbatim>\<open>for i in range(1, len(stafflist)-1)\<close>:
  the first staff of the list that begins with a clef, and whether a flat follows it.
  Reading the first symbol of an empty staff, or the second symbol of a staff that holds
  only the clef, raises \<open>IndexError\<close>.
\<close>

fun scan_clef :: "symbol list list \<Rightarrow> error + (symbol \<times> bool) option" where
  "scan_clef [] = Inr None"
| "scan_clef ([] # staffs) = Inl IndexError"
| "scan_clef ((s0 # rest) # staffs) =
    (if type s0 = ''clef'' then
       (case rest of
          [] \<Rightarrow> Inl IndexError
        | s1 # _ \<Rightarrow> Inr (Some (s0, type s1 = ''flat'')))
     else scan_clef staffs)"

text \<open>
  The search as the block under \<^verbatim>\<open>if first_staff\<close> does it: in the current staff first,
  then in the staffs with index 1 up to the last but one. The result is the new value of
  \<open>initial_clef\<close> (the old one when nothing is found) and of \<open>initial_flat_found\<close>.
\<close>

definition find_initial_clef :: "env \<Rightarrow> symbol list \<Rightarrow> state \<Rightarrow> error + (clef_var \<times> bool)" where
  "find_initial_clef E staff st =
    (case staff of
       [] \<Rightarrow> Inl IndexError
     | s0 # rest \<Rightarrow>
        if type s0 = ''clef'' then
          (case rest of
             [] \<Rightarrow> Inl IndexError
           | s1 # _ \<Rightarrow> Inr (ClefDict s0, type s1 = ''flat''))
        else
          (case scan_clef (butlast (tl (stafflist E))) of
             Inl e \<Rightarrow> Inl e
           | Inr None \<Rightarrow> Inr (initial_clef st, False)
           | Inr (Some (c, flat)) \<Rightarrow> Inr (ClefDict c, flat)))"

definition set_key_signature :: "env \<Rightarrow> state \<Rightarrow> state result" where
  "set_key_signature E st =
    (case alloc E ''keySig'' st of
       Inl e \<Rightarrow> Inl e
     | Inr (y, st1) \<Rightarrow>
        (let st2 = st1\<lparr>mei := (mei st1)\<lparr>xml_keySign :=
                      set_attr (set_attr (xml_keySign (mei st1)) xml_id y) ''sig'' ''1f''\<rparr>,
                    initial_key := Some ''flat''\<rparr>
         in Inr (if humdrum E
                 then st2\<lparr>humdrum_string := humdrum_string st2 @ [''*k[b-]'']\<rparr>
                 else st2)))"

definition first_staff_block :: "env \<Rightarrow> symbol list \<Rightarrow> state \<Rightarrow> state result" where
  "first_staff_block E staff st =
    (case find_initial_clef E staff st of
       Inl e \<Rightarrow> raise st e
     | Inr (found, initial_flat_found) \<Rightarrow>
        (case found of
           NotAssigned \<Rightarrow> raise st (UnboundLocalError ''initial_clef'')
         | NoneValue \<Rightarrow>
             raise st (SystemExit
               ''No clef was found in the staffs. Clefs are necessary to perform conversion!'')
         | ClefDict c \<Rightarrow>
            (case analyse_clef c of
               Inl e \<Rightarrow> raise st e
             | Inr (shape, line) \<Rightarrow>
                (case alloc E ''clef'' st of
                   Inl e \<Rightarrow> Inl e
                 | Inr (x, st1) \<Rightarrow>
                    (let st2 = st1\<lparr>first_staff := False, initial_clef := ClefDict c,
                                    clef := Some c, initial_key := Some [],
                                    mei := (mei st1)\<lparr>xml_clef :=
                                      set_attr (set_attr (set_attr (xml_clef (mei st1))
                                        xml_id x) ''shape'' shape) ''line'' line\<rparr>\<rparr>
                     in if humdrum E then
                          (case map_of CLEFS_HUMDRUM (pitch c) of
                             None \<Rightarrow> raise st2 (KeyError (StrKey (pitch c)))
                           | Some l \<Rightarrow>
                              (let st3 = st2\<lparr>humdrum_string := humdrum_string st2 @ [l]\<rparr>
                               in if initial_flat_found then set_key_signature E st3
                                  else Inr st3))
                        else if initial_flat_found then set_key_signature E st2
                        else Inr st2)))))"

text \<open>
  One turn of the loop over the staffs. Before the symbols are read, \<^verbatim>\<open>saved\<close> is
  cleared, the clef and the key are resolved when a document has just been created, and
  the two accidental flags and the ligature flag are cleared. After the symbols, a staff
  that wrote no document and is not the last one gets an invisible barline.
\<close>

definition begin_staff :: "env \<Rightarrow> symbol list \<Rightarrow> state \<Rightarrow> state result" where
  "begin_staff E staff st =
    (let st0 = st\<lparr>saved := False\<rparr> in
     case (if first_staff st0 then first_staff_block E staff st0 else Inr st0) of
       Inl e \<Rightarrow> Inl e
     | Inr st1 \<Rightarrow> Inr (st1\<lparr>sharp_found := False, flat_found := False, ligature := False\<rparr>))"

definition end_staff :: "env \<Rightarrow> nat \<Rightarrow> state \<Rightarrow> state result" where
  "end_staff E ix_staff st =
    (if saved st then Inr st
     else if ix_staff + 1 = length (stafflist E) then Inr st
     else
       (case alloc E ''barline'' st of
          Inl e \<Rightarrow> Inl e
        | Inr (x, st1) \<Rightarrow>
            Inr (add_child (Element ''barLine'' [(xml_id, x), (''visible'', ''false'')] []) st1)))"

definition process_staff :: "env \<Rightarrow> nat \<Rightarrow> symbol list \<Rightarrow> state \<Rightarrow> state result" where
  "process_staff E ix_staff staff st =
    (case begin_staff E staff st of
       Inl e \<Rightarrow> Inl e
     | Inr st1 \<Rightarrow>
        (case process_symbols E ix_staff 0 staff st1 of
           Inl e \<Rightarrow> Inl e
         | Inr st2 \<Rightarrow> end_staff E ix_staff st2))"

fun process_staffs :: "env \<Rightarrow> nat \<Rightarrow> symbol list list \<Rightarrow> state \<Rightarrow> state result" where
  "process_staffs E ix_staff [] st = Inr st"
| "process_staffs E ix_staff (staff # rest) st =
    (case process_staff E ix_staff staff st of
       Inl e \<Rightarrow> Inl e
     | Inr st' \<Rightarrow> process_staffs E (ix_staff + 1) rest st')"

section \<open>The conversion\<close>

definition convert_to_combined_list_with_metadata ::
    "(string \<times> symbol list list) list \<Rightarrow> symbol list list \<times> string list" where
  "convert_to_combined_list_with_metadata d =
    (concat (map snd d), concat (map (\<lambda>kv. replicate (length (snd kv)) (fst kv)) d))"

text \<open>
  The state at the start of the first turn of the loop over the staffs, in a fresh
  process (the global counter at 0, no file name used): the first document has been
  created, \<^verbatim>\<open>filename\<close> is the label of the first staff, and the variables that the
  source assigns only later are unassigned.
\<close>

definition initial_state :: "env \<Rightarrow> document \<Rightarrow> nat \<Rightarrow> state" where
  "initial_state E d c =
    \<lparr>id_counter = c, used_filenames = [], outputs = [], filename_counter = 0,
     filename = metadata E ! 0, humdrum_string = [''**mens''], mei = d,
     first_staff = True, saved = False, initial_clef = NotAssigned, clef = None,
     initial_key = None, sharp_found = False, flat_found = False, ligature = False,
     mensur = Unbound, xml_lig = Unbound, humdrum_line = None, line_humdrum = None\<rparr>"

text \<open>
  \<^verbatim>\<open>convert_to_mei_and_humdrum\<close>, with the pool returned by
  \<^verbatim>\<open>generate_random_numbers(10000)\<close> as its first argument. The input dictionary is the
  list of its items in their order. The result is the exception that ended the run, if
  any, and the documents that were written. With no staff at all the loop is not entered
  and the test \<^verbatim>\<open>if not saved\<close> after it reads an unassigned variable.
\<close>

definition convert_to_mei_and_humdrum ::
    "string list \<Rightarrow> (string \<times> symbol list list) list \<Rightarrow> bool \<Rightarrow> error option \<times> written list" where
  "convert_to_mei_and_humdrum pool symbols_and_pitches hum =
    (let (staffs, labels) = convert_to_combined_list_with_metadata symbols_and_pitches;
         E = \<lparr>ids = pool, humdrum = hum, stafflist = staffs, metadata = labels\<rparr>
     in if staffs = [] then (Some (UnboundLocalError ''saved''), [])
        else
          (case create_mei_declarations pool 0 of
             Inl e \<Rightarrow> (Some e, [])
           | Inr (d, c) \<Rightarrow>
              (case process_staffs E 0 staffs (initial_state E d c) of
                 Inl (e, written) \<Rightarrow> (Some e, written)
               | Inr st \<Rightarrow>
                  (None, outputs (if saved st then st
                                  else save_mei_file E (length staffs - 1) st)))))"

section \<open>Notions used in the statements\<close>

text \<open>
  The pitch rule in the words of the specification: the octave is 4, lowered by one for a
  relative step in \<open>[-7, 0)\<close>, raised by one for a relative step above 6, lowered by two
  for a relative step in \<open>[-14, -7)\<close>; the letter is the relative step modulo 7 in the
  cycle c, d, e, f, g, a, b.
\<close>

definition spec_pitch_for :: "int \<Rightarrow> int \<times> string" where
  "spec_pitch_for rel =
    ((if - 7 \<le> rel \<and> rel < 0 then 4 - 1
      else if rel > 6 then 4 + 1
      else if - 14 \<le> rel \<and> rel < - 7 then 4 - 2
      else 4),
     [''cdefgab'' ! nat (rel mod 7)])"

text \<open>
  The state of the variables after the block under \<^verbatim>\<open>if first_staff\<close> has run at least
  once: \<open>initial_clef\<close> holds a clef symbol, \<open>clef\<close> holds the same symbol, and
  \<open>initial_key\<close> is the empty string or \<^verbatim>\<open>'flat'\<close>.
\<close>

definition resolved :: "state \<Rightarrow> bool" where
  "resolved st =
    (case initial_clef st of
       NotAssigned \<Rightarrow> False
     | NoneValue \<Rightarrow> False
     | ClefDict c \<Rightarrow>
         type c = ''clef'' \<and> clef st = Some c
         \<and> (initial_key st = Some [] \<or> initial_key st = Some ''flat''))"

text \<open>
  A pool that \<^verbatim>\<open>generate_random_numbers(10000)\<close> can return: 10000 different strings of
  ten digits.
\<close>

definition pool_entry :: "nat \<Rightarrow> string" where
  "pool_entry k =
    ''000000'' @ map digit_char [k div 1000 mod 10, k div 100 mod 10, k div 10 mod 10, k mod 10]"

definition example_pool :: "string list" where
  "example_pool = map pool_entry [0..<10000]"

text \<open>Symbols of the examples.\<close>

definition clef_symbol :: "string \<Rightarrow> symbol" where
  "clef_symbol code = \<lparr>type = ''clef'', pitch = code\<rparr>"

definition note_symbol :: "string \<Rightarrow> string \<Rightarrow> symbol" where
  "note_symbol kind step = \<lparr>type = kind, pitch = step\<rparr>"

definition plain_symbol :: "string \<Rightarrow> symbol" where
  "plain_symbol kind = \<lparr>type = kind, pitch = []\<rparr>"

text \<open>
  The state of a run on a piece of two staffs, the first beginning with the clef
  \<^verbatim>\<open>c-c-g\<close> and a flat, when the first symbol of the first staff is about to be read.
\<close>

definition example_env :: env where
  "example_env =
    \<lparr>ids = example_pool, humdrum = True,
     stafflist = [[clef_symbol ''c-c-g'', plain_symbol ''flat'', plain_symbol ''flat'',
                   note_symbol ''li'' ''g1'', note_symbol ''mi'' ''a1'', plain_symbol ''bar''],
                  [clef_symbol ''c-f'', note_symbol ''mi'' ''g1'']],
     metadata = [''p1'', ''p1'']\<rparr>"

definition example_state :: state where
  "example_state =
    \<lparr>id_counter = 10, used_filenames = [], outputs = [], filename_counter = 0,
     filename = ''p1'', humdrum_string = [''**mens'', ''*clefC2'', ''*k[b-]''],
     mei = \<lparr>scaffold = [''mdiv-'' @ example_pool ! 1, ''score-'' @ example_pool ! 2,
                         ''scoreDef-'' @ example_pool ! 3, ''staffGrp-'' @ example_pool ! 4,
                         ''staffDef-'' @ example_pool ! 5, ''section-'' @ example_pool ! 6,
                         ''staff-'' @ example_pool ! 7, ''layer-'' @ example_pool ! 8],
            xml_clef = [(xml_id, ''clef-'' @ example_pool ! 9), (''shape'', ''C''), (''line'', ''2'')],
            xml_keySign = [(xml_id, ''keySig-'' @ example_pool ! 10), (''sig'', ''1f'')],
            xml_layer = []\<rparr>,
     first_staff = False, saved = False, initial_clef = ClefDict (clef_symbol ''c-c-g''),
     clef = Some (clef_symbol ''c-c-g''), initial_key = Some ''flat'', sharp_found = False,
     flat_found = False, ligature = False, mensur = Unbound, xml_lig = Unbound,
     humdrum_line = None, line_humdrum = None\<rparr>"

text \<open>
  Views of the result of a run that leave the identifiers out: the attributes of an
  element without its identifier, an element and its children without identifiers, and
  for a document the attributes of its clef, the attributes of its key signature and the
  children of its layer.
\<close>

definition without_id :: "attrs \<Rightarrow> attrs" where
  "without_id a = filter (\<lambda>kv. fst kv \<noteq> xml_id) a"

fun bare :: "element \<Rightarrow> element" where
  "bare (Element t a cs) = Element t (without_id a) (map bare cs)"

definition bare_document :: "document \<Rightarrow> attrs \<times> attrs \<times> element list" where
  "bare_document d = (without_id (xml_clef d), without_id (xml_keySign d), map bare (xml_layer d))"

definition mei_documents :: "error option \<times> written list \<Rightarrow> (attrs \<times> attrs \<times> element list) list" where
  "mei_documents r = map (\<lambda>w. bare_document (mei_file w)) (snd r)"

definition mens_files :: "error option \<times> written list \<Rightarrow> (string \<times> string list) option list" where
  "mens_files r = map mens_file (snd r)"

definition save_names :: "error option \<times> written list \<Rightarrow> string list" where
  "save_names r = map save_name (snd r)"

text \<open>The letters of the notes that stand directly in the layer of a document.\<close>

definition note_letters :: "document \<Rightarrow> string option list" where
  "note_letters d = map (\<lambda>e. map_of (attrib e) ''pname'') (filter (\<lambda>e. tag e = ''note'') (xml_layer d))"


text \<open>
  The three variables that hold the clef and the key: one state has the same clef and key
  as another.
\<close>

definition same_key :: "state \<Rightarrow> state \<Rightarrow> bool" where
  "same_key st st' =
    (initial_clef st' = initial_clef st \<and> clef st' = clef st \<and> initial_key st' = initial_key st)"

section \<open>The identifiers of a run\<close>

text \<open>
  \<^verbatim>\<open>generate_random_numbers\<close>. The random source is the list of the draws of
  \<^verbatim>\<open>random.choices(string.digits, k=10)\<close> in the order in which the loop makes them, each
  draw giving the ten indices into \<^verbatim>\<open>string.digits\<close>. The set \<open>numbers\<close> is a list
  without repetitions. The loop ends when the set has \<open>num_elements\<close> members; when the
  source is used up before, the loop does not end, which is the value \<open>None\<close>. The list
  that \<^verbatim>\<open>list(numbers)\<close> returns holds every member of the set once, in an order that
  Python does not specify.
\<close>

definition random_number :: "(nat \<Rightarrow> nat) \<Rightarrow> string" where
  "random_number draw = map (\<lambda>j. ''0123456789'' ! (draw j mod 10)) [0..<10]"

fun generate_random_numbers :: "(nat \<Rightarrow> nat) list \<Rightarrow> nat \<Rightarrow> string list \<Rightarrow> string list option" where
  "generate_random_numbers [] num_elements numbers =
     (if num_elements \<le> length numbers then Some numbers else None)"
| "generate_random_numbers (draw # draws) num_elements numbers =
     (if num_elements \<le> length numbers then Some numbers
      else generate_random_numbers draws num_elements (List.insert (random_number draw) numbers))"

text \<open>
  What the converter relies on: the entries of the pool are different from each other and
  are ten characters long.
\<close>

definition good_pool :: "string list \<Rightarrow> bool" where
  "good_pool pool = (distinct pool \<and> list_all (\<lambda>e. length e = 10) pool)"

text \<open>
  The identifiers that a document carries, with repetitions: those of the eight elements
  of the fixed part, of the clef element and of the key signature element (when they have
  got one), and of the elements in the layer with their children. The identifiers
  emitted by a run are those of the documents it wrote.
\<close>

definition attr_ids :: "attrs \<Rightarrow> string list" where
  "attr_ids a = (case map_of a xml_id of None \<Rightarrow> [] | Some x \<Rightarrow> [x])"

fun element_ids :: "element \<Rightarrow> string list" where
  "element_ids (Element t a cs) = attr_ids a @ concat (map element_ids cs)"

definition document_ids :: "document \<Rightarrow> string list" where
  "document_ids d =
    scaffold d @ attr_ids (xml_clef d) @ attr_ids (xml_keySign d)
      @ concat (map element_ids (xml_layer d))"

definition emitted_ids :: "written list \<Rightarrow> string list" where
  "emitted_ids ws = concat (map (\<lambda>w. document_ids (mei_file w)) ws)"

text \<open>
  The invariant of the run. The identifiers that have been issued when the counter is
  \<open>c\<close> are the entries of the pool up to index \<open>c\<close>, each with any prefix. In every
  state the identifiers carried by the documents written so far and by the document
  being built are pairwise different and have been issued. A computation keeps the
  invariant when the state it returns has it, or when the documents written before its
  exception carry pairwise different identifiers.
\<close>

definition issued :: "env \<Rightarrow> nat \<Rightarrow> string set" where
  "issued E c = {p @ ''-'' @ ids E ! k | p k. k \<le> c \<and> k < length (ids E)}"

definition state_ids :: "state \<Rightarrow> string list" where
  "state_ids st = emitted_ids (outputs st) @ document_ids (mei st)"

definition id_inv :: "env \<Rightarrow> state \<Rightarrow> bool" where
  "id_inv E st = (distinct (state_ids st) \<and> set (state_ids st) \<subseteq> issued E (id_counter st))"

definition ok :: "env \<Rightarrow> state result \<Rightarrow> bool" where
  "ok E r = (case r of Inl (e, ws) \<Rightarrow> distinct (emitted_ids ws) | Inr st \<Rightarrow> id_inv E st)"

definition okf :: "env \<Rightarrow> flow result \<Rightarrow> bool" where
  "okf E r =
    (case r of
       Inl (e, ws) \<Rightarrow> distinct (emitted_ids ws)
     | Inr (Continue st) \<Rightarrow> id_inv E st
     | Inr (Fallthrough st) \<Rightarrow> id_inv E st)"

text \<open>
  An identifier that may be given to a new element: it has been issued and no element of
  the run carries it.
\<close>

definition fresh :: "env \<Rightarrow> state \<Rightarrow> string \<Rightarrow> bool" where
  "fresh E st x = (x \<notin> set (state_ids st) \<and> x \<in> issued E (id_counter st))"

section \<open>The blocks of the loop body, one kind of symbol at a time\<close>

lemma andthen_simps [simp]:
  "andthen (Inl e) f = Inl e"
  "andthen (Inr (Continue st)) f = Inr (Continue st)"
  "andthen (Inr (Fallthrough st)) f = f st"
  by (simp_all add: andthen_def)

lemma andthen_skip: "(\<And>s. f s = Inr (Fallthrough s)) \<Longrightarrow> andthen r f = r"
  by (auto simp add: andthen_def split: sum.splits flow.splits)

lemma mens_block_skip: "type symbol \<noteq> ''mens'' \<Longrightarrow> mens_block E symbol st = Inr (Fallthrough st)"
  by (simp add: mens_block_def)

lemma dot_block_skip: "type symbol \<noteq> ''dot'' \<Longrightarrow> dot_block E symbol st = Inr (Fallthrough st)"
  by (simp add: dot_block_def)

lemma rest_block_skip:
  "map_of RESTS_MEI (type symbol) = None \<Longrightarrow> rest_block E symbol st = Inr (Fallthrough st)"
  by (simp add: rest_block_def)

lemma note_block_skip:
  "map_of NOTES_MEI (type symbol) = None \<Longrightarrow> note_block E symbol st = Inr (Fallthrough st)"
  by (simp add: note_block_def)

lemma bar_block_skip:
  "type symbol \<noteq> ''bar'' \<Longrightarrow> bar_block E ix_staff symbol st = Inr (Fallthrough st)"
  by (simp add: bar_block_def)

lemma custos_block_skip:
  "type symbol \<noteq> ''custos'' \<Longrightarrow> custos_block E ix_staff symbol st = Inr (Fallthrough st)"
  by (simp add: custos_block_def)

lemmas skips = mens_block_skip dot_block_skip rest_block_skip note_block_skip bar_block_skip
  custos_block_skip

lemma note_kinds:
  assumes "map_of NOTES_MEI t = Some d"
  shows "t \<noteq> ''mens''" "t \<noteq> ''dot''" "t \<noteq> ''bar''" "t \<noteq> ''custos''" "t \<noteq> ''flat''"
    "t \<noteq> ''sharp''" "t \<noteq> ''clef''" "t \<noteq> []" "map_of RESTS_MEI t = None"
  using assms by (auto simp add: NOTES_MEI_def RESTS_MEI_def split: if_splits)

lemma rest_kinds:
  assumes "map_of RESTS_MEI t = Some d"
  shows "t \<noteq> ''mens''" "t \<noteq> ''dot''" "t \<noteq> ''bar''" "t \<noteq> ''custos''" "map_of NOTES_MEI t = None"
  using assms by (auto simp add: NOTES_MEI_def RESTS_MEI_def split: if_splits)

lemma blocks_mens:
  "type symbol = ''mens'' \<Longrightarrow> blocks E ix_staff symbol st =
    (case mens_block E symbol st of
       Inl e \<Rightarrow> Inl e | Inr (Continue s) \<Rightarrow> Inr s | Inr (Fallthrough s) \<Rightarrow> append_line E s)"
  by (simp add: blocks_def skips andthen_skip RESTS_MEI_def NOTES_MEI_def)

lemma blocks_dot:
  "type symbol = ''dot'' \<Longrightarrow> blocks E ix_staff symbol st =
    (case dot_block E symbol st of
       Inl e \<Rightarrow> Inl e | Inr (Continue s) \<Rightarrow> Inr s | Inr (Fallthrough s) \<Rightarrow> append_line E s)"
  by (simp add: blocks_def skips andthen_skip RESTS_MEI_def NOTES_MEI_def)

lemma blocks_rest:
  "map_of RESTS_MEI (type symbol) = Some d \<Longrightarrow> blocks E ix_staff symbol st =
    (case rest_block E symbol st of
       Inl e \<Rightarrow> Inl e | Inr (Continue s) \<Rightarrow> Inr s | Inr (Fallthrough s) \<Rightarrow> append_line E s)"
  by (simp add: blocks_def skips andthen_skip rest_kinds)

lemma blocks_note:
  "map_of NOTES_MEI (type symbol) = Some d \<Longrightarrow> blocks E ix_staff symbol st =
    (case note_block E symbol st of
       Inl e \<Rightarrow> Inl e | Inr (Continue s) \<Rightarrow> Inr s | Inr (Fallthrough s) \<Rightarrow> append_line E s)"
  by (simp add: blocks_def skips andthen_skip note_kinds)

lemma blocks_bar:
  "type symbol = ''bar'' \<Longrightarrow> blocks E ix_staff symbol st =
    (case bar_block E ix_staff symbol st of
       Inl e \<Rightarrow> Inl e | Inr (Continue s) \<Rightarrow> Inr s | Inr (Fallthrough s) \<Rightarrow> append_line E s)"
  by (simp add: blocks_def skips andthen_skip RESTS_MEI_def NOTES_MEI_def)

lemma blocks_custos:
  "type symbol = ''custos'' \<Longrightarrow> blocks E ix_staff symbol st =
    (case custos_block E ix_staff symbol st of
       Inl e \<Rightarrow> Inl e | Inr (Continue s) \<Rightarrow> Inr s | Inr (Fallthrough s) \<Rightarrow> append_line E s)"
  by (simp add: blocks_def skips RESTS_MEI_def NOTES_MEI_def)

lemma length_example_pool [simp]: "length example_pool = 10000"
  by (simp add: example_pool_def)

lemma nth_example_pool [simp]: "k < 10000 \<Longrightarrow> example_pool ! k = pool_entry k"
  by (simp add: example_pool_def)

lemma str_nat_digit: "n < 10 \<Longrightarrow> str_nat n = [digit_char n]"
  by (simp add: str_nat.simps)

lemma digit_chars [simp]:
  "digit_char 0 = CHR ''0''" "digit_char 1 = CHR ''1''" "digit_char 2 = CHR ''2''"
  "digit_char 3 = CHR ''3''" "digit_char 4 = CHR ''4''" "digit_char 5 = CHR ''5''"
  "digit_char 6 = CHR ''6''" "digit_char 7 = CHR ''7''" "digit_char 8 = CHR ''8''"
  "digit_char 9 = CHR ''9''"
  "digit_char (Suc 0) = CHR ''1''" "digit_char (Suc (Suc 0)) = CHR ''2''"
  by (simp_all add: digit_char_def)

lemmas table_defs = RESTS_MEI_def NOTES_MEI_def NOTES_HUMDRUM_def RESTS_HUMDRUM_def
  CLEFS_HUMDRUM_def MENSURAL_NOTE_STEPS_def RELATIVE_NOTE_STEPS_def

lemmas run_defs = convert_to_mei_and_humdrum_def convert_to_combined_list_with_metadata_def
  create_mei_declarations_def new_id_def increment_idcounter_def initial_state_def
  process_staff_def begin_staff_def end_staff_def first_staff_block_def find_initial_clef_def
  set_key_signature_def analyse_clef_def analyse_mensuration_def analyse_note_def
  clefline_of_def relative_step_def get_humdrum_pitch_def upper_def upper_char_def
  alloc_def raise_def add_child_def change_child_def update_at_def set_on_def append_to_def
  process_symbol_def accidentals_and_blocks_def blocks_mens blocks_dot blocks_rest blocks_note
  blocks_bar blocks_custos mens_block_def
  dot_block_def rest_block_def note_block_def note_line_def open_ligature_def plain_note_def
  close_ligature_def apply_sharp_def apply_flat_def place_note_def bar_block_def
  custos_block_def is_note_def append_line_def save_mei_file_def retire_def set_proportion_def
  clef_symbol_def note_symbol_def plain_symbol_def xml_id_def str_int_def zfill_def
  str_nat_digit mei_documents_def mens_files_def save_names_def bare_document_def
  without_id_def Let_def table_defs

section \<open>The pitch of a note\<close>

lemma relative_lookup:
  assumes "- 14 \<le> k" and "k \<le> 13"
  shows "map_of RELATIVE_NOTE_STEPS k = Some [''cdefgab'' ! nat (k mod 7)]"
proof -
  from assms have "k = - 14 \<or> k = - 13 \<or> k = - 12 \<or> k = - 11 \<or> k = - 10 \<or> k = - 9 \<or> k = - 8
      \<or> k = - 7 \<or> k = - 6 \<or> k = - 5 \<or> k = - 4 \<or> k = - 3 \<or> k = - 2 \<or> k = - 1
      \<or> k = 0 \<or> k = 1 \<or> k = 2 \<or> k = 3 \<or> k = 4 \<or> k = 5 \<or> k = 6
      \<or> k = 7 \<or> k = 8 \<or> k = 9 \<or> k = 10 \<or> k = 11 \<or> k = 12 \<or> k = 13"
    by arith
  then show ?thesis
    by (elim disjE) (simp_all add: RELATIVE_NOTE_STEPS_def)
qed

lemma step_range:
  "map_of MENSURAL_NOTE_STEPS p = Some s \<Longrightarrow> 0 \<le> s \<and> s \<le> 20"
  by (simp add: MENSURAL_NOTE_STEPS_def split: if_splits)

lemma clefline_range:
  "clefline_of c = Some r \<Longrightarrow> 7 \<le> r \<and> r \<le> 19"
  by (simp add: clefline_of_def MENSURAL_NOTE_STEPS_def split: if_splits)

text \<open>
  Whenever the relative step is at least \<open>-14\<close>, \<^verbatim>\<open>analyse_note\<close> returns the octave and
  the letter of the pitch rule of the specification.
\<close>

lemma analyse_note_in_range:
  assumes "map_of MENSURAL_NOTE_STEPS p = Some s"
    and "clefline_of (pitch c) = Some r"
    and "- 14 \<le> s - r"
  shows "analyse_note c p = Inr (spec_pitch_for (s - r))"
proof -
  have b: "s - r \<le> 13" using step_range[OF assms(1)] clefline_range[OF assms(2)] by arith
  have m: "(7 + (s - r)) mod 7 = (s - r) mod 7" by simp
  show ?thesis
    using assms b
    by (auto simp add: analyse_note_def relative_step_def spec_pitch_for_def relative_lookup m
        simp del: mod_add_self1)
qed

text \<open>
  Claim C2: for every clef among the seven clef codes and every step code of the table of
  21 steps the pitch computation returns a defined result. It does not: under the clef
  \<^verbatim>\<open>c-f\<close> the step \<^verbatim>\<open>c0\<close> has the relative step \<open>-19\<close>, which none of the three tests of
  the octave covers, and the lookup in the last branch fails with a \<open>KeyError\<close>.
\<close>

theorem analyse_note_low_step:
  "analyse_note \<lparr>type = ''clef'', pitch = ''c-f''\<rparr> ''c0'' = Inl (KeyError (IntKey (- 19)))"
  by (simp add: analyse_note_def MENSURAL_NOTE_STEPS_def clefline_of_def relative_step_def
      RELATIVE_NOTE_STEPS_def)

lemma relative_nonempty:
  "map_of RELATIVE_NOTE_STEPS k = Some r \<Longrightarrow> r \<noteq> []"
  by (auto simp add: RELATIVE_NOTE_STEPS_def split: if_splits)

lemma analyse_note_octave:
  assumes "analyse_note c p = Inr (oct, pname)"
  shows "(oct = 2 \<or> oct = 3 \<or> oct = 4 \<or> oct = 5) \<and> pname \<noteq> []"
  using assms
  by (auto simp add: analyse_note_def relative_step_def Let_def
      split: option.splits if_splits dest: relative_nonempty)

text \<open>
  Claim C10: whenever the pitch computation returns a result, the octave is 2, 3, 4 or 5;
  so \<^verbatim>\<open>get_humdrum_pitch\<close> never returns the line it was given, it adds a suffix that is
  not empty.
\<close>

theorem octave_range_and_suffix:
  assumes "analyse_note c p = Inr (oct, pname)"
  shows "oct \<in> {2, 3, 4, 5} \<and> get_humdrum_pitch oct pname line \<noteq> line
    \<and> (\<exists>suffix. suffix \<noteq> [] \<and> get_humdrum_pitch oct pname line = line @ suffix)"
  using analyse_note_octave[OF assms]
  by (auto simp add: get_humdrum_pitch_def upper_def)

theorem octave_range_and_suffix_witness:
  "analyse_note (clef_symbol ''c-f'') ''g1'' = Inr (2, ''b'')
   \<and> (2::int) \<in> {2, 3, 4, 5} \<and> get_humdrum_pitch 2 ''b'' ''M'' \<noteq> ''M''
   \<and> (\<exists>suffix. suffix \<noteq> [] \<and> get_humdrum_pitch 2 ''b'' ''M'' = ''M'' @ suffix)"
proof -
  have h: "analyse_note (clef_symbol ''c-f'') ''g1'' = Inr (2, ''b'')"
    by (simp add: analyse_note_def MENSURAL_NOTE_STEPS_def clefline_of_def relative_step_def
        RELATIVE_NOTE_STEPS_def clef_symbol_def)
  show ?thesis
    using h octave_range_and_suffix[OF h, of "''M''"] by simp
qed

section \<open>Runs on small pieces\<close>

text \<open>
  Claim C1, as amended: for the piece of one staff with the clef \<^verbatim>\<open>c-c-g\<close>, a flat, the
  mensuration \<^verbatim>\<open>met_c\<close>, a minima on the step \<^verbatim>\<open>g1\<close> and a barline, one document is
  written; it has a clef of shape C on line 2, the key signature of one flat, a
  mensuration element with sign C and no slash, exactly one note, of duration minima,
  octave 4 and letter c, and a double barline. This holds for every pool of 10000
  entries.
\<close>

theorem scenario_document:
  assumes "length pool = 10000"
  shows "mei_documents (convert_to_mei_and_humdrum pool
     [(label, [[clef_symbol ''c-c-g'', plain_symbol ''flat'', note_symbol ''mens'' ''met_c'',
                note_symbol ''mi'' ''g1'', plain_symbol ''bar'']])] hum) =
   [([(''shape'', ''C''), (''line'', ''2'')], [(''sig'', ''1f'')],
     [Element ''mensur'' [(''prolatio'', ''2''), (''sign'', ''C'')] [],
      Element ''note'' [(''dur'', ''minima''), (''oct'', ''4''), (''pname'', ''c'')] [],
      Element ''barLine'' [(''form'', ''dbl'')] []])]"
  using assms by (cases hum) (simp_all add: run_defs cong: let_weak_cong)

theorem scenario_document_witness:
  "length example_pool = 10000
   \<and> mei_documents (convert_to_mei_and_humdrum example_pool
     [(''p1'', [[clef_symbol ''c-c-g'', plain_symbol ''flat'', note_symbol ''mens'' ''met_c'',
                note_symbol ''mi'' ''g1'', plain_symbol ''bar'']])] True) =
   [([(''shape'', ''C''), (''line'', ''2'')], [(''sig'', ''1f'')],
     [Element ''mensur'' [(''prolatio'', ''2''), (''sign'', ''C'')] [],
      Element ''note'' [(''dur'', ''minima''), (''oct'', ''4''), (''pname'', ''c'')] [],
      Element ''barLine'' [(''form'', ''dbl'')] []])]"
  using scenario_document[OF length_example_pool, of "''p1''" True] by simp

text \<open>
  Claim C1 as stated asks for the letter g. The only note of the document has the letter
  c: the step \<^verbatim>\<open>g1\<close> is the line of the clef \<^verbatim>\<open>c-c-g\<close>, the relative step is 0, and the
  table maps 0 to c.
\<close>

theorem scenario_note_letter:
  "map note_letters (map mei_file (snd (convert_to_mei_and_humdrum example_pool
     [(''p1'', [[clef_symbol ''c-c-g'', plain_symbol ''flat'', note_symbol ''mens'' ''met_c'',
                note_symbol ''mi'' ''g1'', plain_symbol ''bar'']])] True))) = [[Some ''c'']]"
  by (simp add: run_defs note_letters_def cong: let_weak_cong)

text \<open>
  Claim C4: each flat file holds the declaration line, the lines of its own document
  only, and ends with the double barline and the terminator. A piece of two staffs,
  each with a clef and a note, the first closed by a barline: the second file repeats
  the five lines of the first document before its own, and, written at the end of the
  stream, has no closing lines.
\<close>

theorem flat_file_accumulates:
  "mens_files (convert_to_mei_and_humdrum example_pool
     [(''p1'', [[clef_symbol ''c-c-g'', note_symbol ''mi'' ''g1'', plain_symbol ''bar''],
                [clef_symbol ''c-c-g'', note_symbol ''mi'' ''a1'']])] True) =
   [Some (''p1_01..mens'', [''**mens'', ''*clefC2'', ''Mc'', ''=||'', ''*-'']),
    Some (''p1_02..mens'', [''**mens'', ''*clefC2'', ''Mc'', ''=||'', ''*-'', ''*clefC2'', ''Md''])]"
  by (simp add: run_defs cong: let_weak_cong)

text \<open>
  Claim C5: without any clef the conversion fails with the explicit abort for a missing
  clef. On a piece whose only staff begins with a note the test of \<open>initial_clef\<close> against
  \<^verbatim>\<open>None\<close> reads a variable that was never assigned: the run ends with
  \<open>UnboundLocalError\<close>, not with the \<open>SystemExit\<close> of the abort, and nothing is written.
\<close>

theorem no_clef_unbound:
  "convert_to_mei_and_humdrum example_pool
     [(''p1'', [[note_symbol ''mi'' ''g1'', plain_symbol ''bar'']])] True =
   (Some (UnboundLocalError ''initial_clef''), [])"
  by (simp add: run_defs cong: let_weak_cong)

text \<open>
  Claim C6: the documents of one label are named with the counters 01, 02, and so on. A
  piece with one staff under the label A, without barline, and two staffs under the
  label B, each closed by a barline: both documents are written under the name
  \<^verbatim>\<open>B_01.mei\<close>.
\<close>

theorem save_name_repeated:
  "save_names (convert_to_mei_and_humdrum example_pool
     [(''A'', [[clef_symbol ''c-c-g'', note_symbol ''mi'' ''g1'']]),
      (''B'', [[note_symbol ''mi'' ''g1'', plain_symbol ''bar''],
               [note_symbol ''mi'' ''a1'', plain_symbol ''bar'']])] False) =
   [''B_01.mei'', ''B_01.mei'']"
  by (simp add: run_defs cong: let_weak_cong)


text \<open>
  Claim C7 as stated, for the kind \<^verbatim>\<open>li\<close> of the second note: two notes of kind \<^verbatim>\<open>li\<close>
  give two ligature elements with one note each.
\<close>

theorem two_ligature_notes:
  "mei_documents (convert_to_mei_and_humdrum example_pool
     [(''p1'', [[clef_symbol ''c-c-g'', note_symbol ''li'' ''g1'', note_symbol ''li'' ''a1'']])] False) =
   [([(''shape'', ''C''), (''line'', ''2'')], [],
     [Element ''ligature'' [(''form'', ''recta'')]
        [Element ''note'' [(''dur'', ''semibrevis''), (''oct'', ''4''), (''pname'', ''c'')] []],
      Element ''ligature'' [(''form'', ''recta'')]
        [Element ''note'' [(''dur'', ''semibrevis''), (''oct'', ''4''), (''pname'', ''d'')] []]])]"
  by (simp add: run_defs cong: let_weak_cong)

section \<open>A barline\<close>

lemma alloc_Inr:
  assumes "alloc E prefix st = Inr (x, st1)"
  shows "st1 = st\<lparr>id_counter := id_counter st + 1\<rparr>"
    and "x = prefix @ ''-'' @ ids E ! (id_counter st + 1)"
    and "id_counter st + 1 < length (ids E)"
  using assms
  by (auto simp add: alloc_def new_id_def increment_idcounter_def raise_def Let_def split: if_splits)

lemma save_mei_file_fields [simp]:
  "id_counter (save_mei_file E ix st) = id_counter st"
  "humdrum_string (save_mei_file E ix st) = humdrum_string st"
  "mei (save_mei_file E ix st) = mei st"
  "first_staff (save_mei_file E ix st) = first_staff st"
  "saved (save_mei_file E ix st) = saved st"
  "initial_clef (save_mei_file E ix st) = initial_clef st"
  "clef (save_mei_file E ix st) = clef st"
  "initial_key (save_mei_file E ix st) = initial_key st"
  "sharp_found (save_mei_file E ix st) = sharp_found st"
  "flat_found (save_mei_file E ix st) = flat_found st"
  "ligature (save_mei_file E ix st) = ligature st"
  "mensur (save_mei_file E ix st) = mensur st"
  "xml_lig (save_mei_file E ix st) = xml_lig st"
  "humdrum_line (save_mei_file E ix st) = humdrum_line st"
  "line_humdrum (save_mei_file E ix st) = line_humdrum st"
  by (simp_all add: save_mei_file_def Let_def)

lemma save_mei_file_outputs:
  "\<exists>doc. outputs (save_mei_file E ix st) = outputs st @ [doc] \<and> mei_file doc = mei st"
  by (simp add: save_mei_file_def Let_def)

lemma add_child_fields [simp]:
  "id_counter (add_child e st) = id_counter st"
  "used_filenames (add_child e st) = used_filenames st"
  "outputs (add_child e st) = outputs st"
  "filename_counter (add_child e st) = filename_counter st"
  "filename (add_child e st) = filename st"
  "humdrum_string (add_child e st) = humdrum_string st"
  "first_staff (add_child e st) = first_staff st"
  "saved (add_child e st) = saved st"
  "initial_clef (add_child e st) = initial_clef st"
  "clef (add_child e st) = clef st"
  "initial_key (add_child e st) = initial_key st"
  "sharp_found (add_child e st) = sharp_found st"
  "flat_found (add_child e st) = flat_found st"
  "ligature (add_child e st) = ligature st"
  "mensur (add_child e st) = mensur st"
  "xml_lig (add_child e st) = xml_lig st"
  "humdrum_line (add_child e st) = humdrum_line st"
  "line_humdrum (add_child e st) = line_humdrum st"
  "xml_layer (mei (add_child e st)) = xml_layer (mei st) @ [e]"
  "xml_clef (mei (add_child e st)) = xml_clef (mei st)"
  "xml_keySign (mei (add_child e st)) = xml_keySign (mei st)"
  "scaffold (mei (add_child e st)) = scaffold (mei st)"
  by (simp_all add: add_child_def)

lemma change_child_fields [simp]:
  "id_counter (change_child i f st) = id_counter st"
  "used_filenames (change_child i f st) = used_filenames st"
  "outputs (change_child i f st) = outputs st"
  "filename_counter (change_child i f st) = filename_counter st"
  "filename (change_child i f st) = filename st"
  "humdrum_string (change_child i f st) = humdrum_string st"
  "first_staff (change_child i f st) = first_staff st"
  "saved (change_child i f st) = saved st"
  "initial_clef (change_child i f st) = initial_clef st"
  "clef (change_child i f st) = clef st"
  "initial_key (change_child i f st) = initial_key st"
  "sharp_found (change_child i f st) = sharp_found st"
  "flat_found (change_child i f st) = flat_found st"
  "ligature (change_child i f st) = ligature st"
  "mensur (change_child i f st) = mensur st"
  "xml_lig (change_child i f st) = xml_lig st"
  "humdrum_line (change_child i f st) = humdrum_line st"
  "line_humdrum (change_child i f st) = line_humdrum st"
  "xml_layer (mei (change_child i f st)) = update_at i f (xml_layer (mei st))"
  "xml_clef (mei (change_child i f st)) = xml_clef (mei st)"
  "xml_keySign (mei (change_child i f st)) = xml_keySign (mei st)"
  "scaffold (mei (change_child i f st)) = scaffold (mei st)"
  by (simp_all add: change_child_def)

lemma create_mei_declarations_empty:
  assumes "create_mei_declarations pool c = Inr (d, c')"
  shows "xml_layer d = [] \<and> xml_clef d = [] \<and> xml_keySign d = []"
  using assms by (auto simp add: create_mei_declarations_def split: sum.splits prod.splits)

lemma retire_not_Current [simp]: "retire r \<noteq> Current i" "Current i \<noteq> retire r"
  by (simp_all add: retire_def split: ref.splits)

lemma bar_block_Inr:
  assumes "type symbol = ''bar''" and "bar_block E ix_staff symbol st = Inr r"
  shows "\<exists>st' x doc. r = Continue st'
     \<and> outputs st' = outputs st @ [doc]
     \<and> mei_file doc = (mei st)\<lparr>xml_layer := xml_layer (mei st)
           @ [Element ''barLine'' [(xml_id, x), (''form'', ''dbl'')] []]\<rparr>
     \<and> xml_layer (mei st') = [] \<and> xml_clef (mei st') = [] \<and> xml_keySign (mei st') = []
     \<and> mensur st' = retire (mensur st) \<and> xml_lig st' = retire (xml_lig st)
     \<and> initial_clef st' = initial_clef st \<and> clef st' = clef st \<and> initial_key st' = initial_key st
     \<and> sharp_found st' = sharp_found st \<and> flat_found st' = flat_found st
     \<and> ligature st' = ligature st \<and> first_staff st' \<and> saved st'"
proof -
  from assms obtain x st1 where a: "alloc E ''barline'' st = Inr (x, st1)"
    by (auto simp add: bar_block_def split: sum.splits)
  note st1 = alloc_Inr(1)[OF a]
  define st2 where "st2 = add_child (Element ''barLine'' [(xml_id, x), (''form'', ''dbl'')] []) st1"
  define st3 where "st3 = (if humdrum E
       then st2\<lparr>humdrum_string := humdrum_string st2 @ [''=||'', ''*-'']\<rparr> else st2)"
  define st4 where "st4 = save_mei_file E ix_staff st3"
  have eq: "bar_block E ix_staff symbol st =
      (case create_mei_declarations (ids E) (id_counter st4) of
         Inl e \<Rightarrow> raise st4 e
       | Inr (d, c) \<Rightarrow>
           Inr (Continue (st4\<lparr>mei := d, id_counter := c, first_staff := True, saved := True,
                 mensur := retire (mensur st4), xml_lig := retire (xml_lig st4)\<rparr>)))"
    unfolding bar_block_def st4_def st3_def st2_def Let_def using assms(1) a
    by (simp split del: if_split cong: if_cong)
  from assms(2) obtain d c where
    d: "create_mei_declarations (ids E) (id_counter st4) = Inr (d, c)"
    and r: "r = Continue (st4\<lparr>mei := d, id_counter := c, first_staff := True, saved := True,
                 mensur := retire (mensur st4), xml_lig := retire (xml_lig st4)\<rparr>)"
    unfolding eq by (auto simp add: raise_def split: sum.splits)
  obtain doc where doc: "outputs st4 = outputs st3 @ [doc]" "mei_file doc = mei st3"
    unfolding st4_def using save_mei_file_outputs[of E ix_staff st3] by blast
  have m3: "mei st3 = (mei st)\<lparr>xml_layer := xml_layer (mei st)
           @ [Element ''barLine'' [(xml_id, x), (''form'', ''dbl'')] []]\<rparr>"
    by (simp add: st3_def st2_def st1 add_child_def)
  have o3: "outputs st3 = outputs st" by (simp add: st3_def st2_def st1)
  have o4: "outputs st4 = outputs st @ [doc]" using doc(1) o3 by simp
  have m4: "mei_file doc = (mei st)\<lparr>xml_layer := xml_layer (mei st)
           @ [Element ''barLine'' [(xml_id, x), (''form'', ''dbl'')] []]\<rparr>"
    using doc(2) m3 by simp
  have f4: "mensur st4 = mensur st" "xml_lig st4 = xml_lig st" "initial_clef st4 = initial_clef st"
    "clef st4 = clef st" "initial_key st4 = initial_key st" "sharp_found st4 = sharp_found st"
    "flat_found st4 = flat_found st" "ligature st4 = ligature st"
    by (simp_all add: st4_def st3_def st2_def st1)
  show ?thesis
    apply (rule exI[of _ "st4\<lparr>mei := d, id_counter := c, first_staff := True, saved := True,
                 mensur := retire (mensur st4), xml_lig := retire (xml_lig st4)\<rparr>"])
    apply (rule exI[of _ x])
    apply (rule exI[of _ doc])
    using create_mei_declarations_empty[OF d] o4 m4 f4
    apply (simp add: r)
    done
qed

lemma process_symbol_plain:
  assumes "resolved st" and "type symbol \<noteq> ''clef''" and "type symbol \<noteq> []"
    and "type symbol \<noteq> ''flat''" and "type symbol \<noteq> ''sharp''"
  shows "process_symbol E ix_staff ix_symbol symbol st = blocks E ix_staff symbol st"
  using assms
  by (auto simp add: resolved_def process_symbol_def accidentals_and_blocks_def
      split: clef_var.splits)


lemma example_state_resolved: "resolved example_state"
  by (simp add: resolved_def example_state_def clef_symbol_def)

section \<open>Notes and ligatures, step by step\<close>

lemma tag_set_on [simp]: "tag (set_on k v e) = tag e"
  by (simp add: set_on_def)

lemma children_set_on [simp]: "children (set_on k v e) = children e"
  by (simp add: set_on_def)

lemma map_of_set_attr: "map_of (set_attr a k v) k' = (if k' = k then Some v else map_of a k')"
  by (induction a k v rule: set_attr.induct) auto

lemma attrib_set_on: "map_of (attrib (set_on k v e)) k' = (if k' = k then Some v else map_of (attrib e) k')"
  by (simp add: set_on_def map_of_set_attr)

lemma note_line_Inr:
  assumes "note_line E t oct pname st = Inr st'"
  shows "\<exists>l. st' = st\<lparr>line_humdrum := l\<rparr>"
proof (cases "humdrum E")
  case False
  then have "st' = st\<lparr>line_humdrum := line_humdrum st\<rparr>" using assms by (simp add: note_line_def)
  then show ?thesis by blast
next
  case True
  then show ?thesis using assms
    by (auto simp add: note_line_def raise_def Let_def split: option.splits if_splits)
qed

lemma append_line_Inr:
  assumes "append_line E st = Inr st'"
  shows "\<exists>h. st' = st\<lparr>humdrum_string := h\<rparr>"
proof (cases "humdrum E")
  case False
  then have "st' = st\<lparr>humdrum_string := humdrum_string st\<rparr>" using assms by (simp add: append_line_def)
  then show ?thesis by blast
next
  case True
  then show ?thesis using assms
    by (auto simp add: append_line_def raise_def split: option.splits)
qed

lemma note_block_li:
  assumes "type s = ''li''" and "note_block E s st = Inr r"
  shows "\<exists>st' note y. r = Continue st'
     \<and> xml_layer (mei st') = xml_layer (mei st)
          @ [Element ''ligature'' [(xml_id, y), (''form'', ''recta'')] [note]]
     \<and> tag note = ''note''
     \<and> ligature st' \<and> xml_lig st' = Current (length (xml_layer (mei st)))
     \<and> initial_clef st' = initial_clef st \<and> clef st' = clef st \<and> initial_key st' = initial_key st"
proof -
  have d: "map_of NOTES_MEI ''li'' = Some ''semibrevis''" by (simp add: NOTES_MEI_def)
  from assms d obtain c where c: "clef st = Some c"
    by (auto simp add: note_block_def raise_def Let_def split: option.splits)
  from assms d c obtain oct pname where a: "analyse_note c (pitch s) = Inr (oct, pname)"
    by (auto simp add: note_block_def raise_def Let_def split: sum.splits)
  from assms d c a obtain x st1 where al: "alloc E ''note'' st = Inr (x, st1)"
    by (auto simp add: note_block_def Let_def split: sum.splits)
  define nt where "nt = Element ''note''
      [(xml_id, x), (''dur'', ''semibrevis''), (''oct'', str_int oct), (''pname'', pname)] []"
  from assms d c a al obtain st2 where nl: "note_line E ''li'' oct pname st1 = Inr st2"
    by (auto simp add: note_block_def Let_def split: sum.splits)
  have r: "open_ligature E oct pname nt st2 = Inr r"
    using assms d c a al nl by (simp add: note_block_def Let_def nt_def)
  then obtain y st3 where al2: "alloc E ''ligature'' st2 = Inr (y, st3)"
    by (auto simp add: open_ligature_def split: sum.splits)
  note s1 = alloc_Inr(1)[OF al]
  note s3 = alloc_Inr(1)[OF al2]
  from note_line_Inr[OF nl] obtain l where s2: "st2 = st1\<lparr>line_humdrum := l\<rparr>" by blast
  define st4 where "st4 = (add_child (Element ''ligature'' [(xml_id, y), (''form'', ''recta'')] [nt]) st3)
                     \<lparr>xml_lig := Current (length (xml_layer (mei st3))), ligature := True\<rparr>"
  define st5 where "st5 = (if humdrum E
            then st4\<lparr>line_humdrum := Some (get_humdrum_pitch oct pname ''[s''),
                     humdrum_string := humdrum_string st4 @ [get_humdrum_pitch oct pname ''[s'']\<rparr>
            else st4)"
  have r5: "r = Continue st5"
    using r al2 by (auto simp add: open_ligature_def Let_def st5_def st4_def)
  have f: "xml_layer (mei st5) = xml_layer (mei st)
          @ [Element ''ligature'' [(xml_id, y), (''form'', ''recta'')] [nt]]"
    "ligature st5" "xml_lig st5 = Current (length (xml_layer (mei st)))"
    "initial_clef st5 = initial_clef st" "clef st5 = clef st" "initial_key st5 = initial_key st"
    by (simp_all add: st5_def st4_def s3 s2 s1)
  have "tag nt = ''note''" by (simp add: nt_def)
  with r5 f show ?thesis by blast
qed

lemma plain_note_closing:
  assumes "ligature st" and "xml_lig st = Current i" and "plain_note E oct pname note st = Inr r"
  shows "\<exists>st' note'. r = Fallthrough st'
     \<and> xml_layer (mei st') = update_at i (append_to note') (xml_layer (mei st))
     \<and> tag note' = tag note \<and> map_of (attrib note') ''dur'' = Some ''semibrevis''
     \<and> \<not> ligature st'"
proof -
  obtain note1 st1 where 1: "close_ligature E oct pname note st = (note1, st1)" by (cases "close_ligature E oct pname note st")
  obtain note2 st2 where 2: "apply_sharp E note1 st1 = (note2, st2)" by (cases "apply_sharp E note1 st1")
  obtain note3 st3 where 3: "apply_flat E note2 st2 = (note3, st3)" by (cases "apply_flat E note2 st2")
  define st4 where "st4 = (if humdrum E then st3\<lparr>humdrum_line := line_humdrum st3\<rparr> else st3)"
  have r: "r = Fallthrough (change_child i (append_to note3) st4)"
    using assms 1 2 3 by (simp add: plain_note_def place_note_def Let_def st4_def)
  have n1: "note1 = set_on ''dur'' ''semibrevis'' note" "mei st1 = mei st" "\<not> ligature st1"
    using 1 assms(1) by (auto simp add: close_ligature_def Let_def split: if_splits)
  have n2: "tag note2 = tag note1" "map_of (attrib note2) ''dur'' = map_of (attrib note1) ''dur''"
    "mei st2 = mei st1" "ligature st2 = ligature st1"
    using 2 by (auto simp add: apply_sharp_def attrib_set_on split: if_splits)
  have n3: "tag note3 = tag note2" "map_of (attrib note3) ''dur'' = map_of (attrib note2) ''dur''"
    "mei st3 = mei st2" "ligature st3 = ligature st2"
    using 3 by (auto simp add: apply_flat_def attrib_set_on split: if_splits)
  have l4: "\<not> ligature st4" by (simp add: st4_def n1 n2 n3)
  have m4: "mei st4 = mei st" by (simp add: st4_def n1 n2 n3)
  have "xml_layer (mei (change_child i (append_to note3) st4))
       = update_at i (append_to note3) (xml_layer (mei st))"
    by (simp add: m4)
  moreover have "tag note3 = tag note" by (simp add: n1 n2 n3)
  moreover have "map_of (attrib note3) ''dur'' = Some ''semibrevis''"
    by (simp add: n1 n2 n3 attrib_set_on)
  moreover have "\<not> ligature (change_child i (append_to note3) st4)" using l4 by simp
  ultimately show ?thesis using r by blast
qed

lemma note_block_closing:
  assumes "map_of NOTES_MEI (type s) = Some d" and "type s \<noteq> ''li''"
    and "ligature st" and "xml_lig st = Current i" and "note_block E s st = Inr r"
  shows "\<exists>st' note. r = Fallthrough st'
     \<and> xml_layer (mei st') = update_at i (append_to note) (xml_layer (mei st))
     \<and> tag note = ''note'' \<and> map_of (attrib note) ''dur'' = Some ''semibrevis''
     \<and> \<not> ligature st'"
proof -
  from assms obtain c where c: "clef st = Some c"
    by (auto simp add: note_block_def raise_def Let_def split: option.splits)
  from assms c obtain oct pname where a: "analyse_note c (pitch s) = Inr (oct, pname)"
    by (auto simp add: note_block_def raise_def Let_def split: sum.splits)
  from assms c a obtain x st1 where al: "alloc E ''note'' st = Inr (x, st1)"
    by (auto simp add: note_block_def Let_def split: sum.splits)
  define note0 where "note0 = Element ''note''
      [(xml_id, x), (''dur'', d), (''oct'', str_int oct), (''pname'', pname)] []"
  define nt where "nt = (if type s = ''br'' \<or> type s = ''sb''
                                 then set_on ''colored'' ''true'' note0 else note0)"
  from assms c a al obtain st2 where nl: "note_line E (type s) oct pname st1 = Inr st2"
    by (auto simp add: note_block_def Let_def split: sum.splits)
  have r: "plain_note E oct pname nt st2 = Inr r"
    using assms c a al nl
    by (simp add: note_block_def Let_def nt_def note0_def split del: if_split cong: if_cong)
  note s1 = alloc_Inr(1)[OF al]
  from note_line_Inr[OF nl] obtain l where s2: "st2 = st1\<lparr>line_humdrum := l\<rparr>" by blast
  have f: "ligature st2" "xml_lig st2 = Current i" "mei st2 = mei st"
    using assms(3,4) by (simp_all add: s2 s1)
  have t: "tag nt = ''note''" by (simp add: nt_def note0_def)
  from plain_note_closing[OF f(1,2) r] t f(3) show ?thesis by auto
qed

lemma process_symbol_note:
  assumes "resolved st" and "map_of NOTES_MEI (type s) = Some d"
  shows "process_symbol E ix_staff ix_symbol s st =
    (case note_block E s st of
       Inl e \<Rightarrow> Inl e | Inr (Continue s') \<Rightarrow> Inr s' | Inr (Fallthrough s') \<Rightarrow> append_line E s')"
  using process_symbol_plain[OF assms(1), of s E ix_staff ix_symbol] note_kinds[OF assms(2)]
    blocks_note[OF assms(2)]
  by simp

lemma resolved_cong:
  assumes "resolved st" and "initial_clef st' = initial_clef st" and "clef st' = clef st"
    and "initial_key st' = initial_key st"
  shows "resolved st'"
  using assms by (auto simp add: resolved_def split: clef_var.splits)

section \<open>The barline and the staff after it\<close>


lemma find_initial_clef_saved [simp]:
  "find_initial_clef E staff (st\<lparr>saved := b\<rparr>) = find_initial_clef E staff st"
  by (simp add: find_initial_clef_def split: list.splits sum.splits option.splits)




section \<open>Clef and key within a document\<close>

lemma same_key_refl [simp]: "same_key st st"
  by (simp add: same_key_def)

lemma same_key_fields [simp]:
  "same_key st (s\<lparr>used_filenames := a1\<rparr>) = same_key st s"
  "same_key st (s\<lparr>filename_counter := a2\<rparr>) = same_key st s"
  "same_key st (s\<lparr>filename := a3\<rparr>) = same_key st s"
  "same_key st (s\<lparr>humdrum_string := a4\<rparr>) = same_key st s"
  "same_key st (s\<lparr>first_staff := a5\<rparr>) = same_key st s"
  "same_key st (s\<lparr>saved := a6\<rparr>) = same_key st s"
  "same_key st (s\<lparr>id_counter := a7\<rparr>) = same_key st s"
  "same_key st (s\<lparr>outputs := a8\<rparr>) = same_key st s"
  "same_key st (s\<lparr>mei := a9\<rparr>) = same_key st s"
  "same_key st (s\<lparr>sharp_found := b1\<rparr>) = same_key st s"
  "same_key st (s\<lparr>flat_found := b2\<rparr>) = same_key st s"
  "same_key st (s\<lparr>ligature := b3\<rparr>) = same_key st s"
  "same_key st (s\<lparr>mensur := b4\<rparr>) = same_key st s"
  "same_key st (s\<lparr>xml_lig := b5\<rparr>) = same_key st s"
  "same_key st (s\<lparr>humdrum_line := b6\<rparr>) = same_key st s"
  "same_key st (s\<lparr>line_humdrum := b7\<rparr>) = same_key st s"
  "same_key st (add_child e s) = same_key st s"
  "same_key st (change_child i f s) = same_key st s"
  "same_key st (save_mei_file E ix s) = same_key st s"
  by (simp_all add: same_key_def)

lemma same_key_trans: "same_key st st1 \<Longrightarrow> same_key st1 st2 \<Longrightarrow> same_key st st2"
  by (simp add: same_key_def)

lemma same_key_resolved: "same_key st st' \<Longrightarrow> resolved st \<Longrightarrow> resolved st'"
  by (auto simp add: same_key_def resolved_def split: clef_var.splits)

lemma alloc_same_key: "alloc E p st = Inr (x, st1) \<Longrightarrow> same_key st st1"
  using alloc_Inr(1)[of E p st x st1] by simp

lemma append_line_same_key: "append_line E st = Inr st' \<Longrightarrow> same_key st st'"
  using append_line_Inr[of E st st'] by auto

lemma mens_block_same_key:
  assumes "mens_block E symbol st = Inr r"
  shows "case r of Continue s \<Rightarrow> same_key st s | Fallthrough s \<Rightarrow> same_key st s"
  using assms
  by (auto simp add: mens_block_def Let_def raise_def dest!: alloc_same_key
      split: if_splits ref.splits list.splits sum.splits)

lemma dot_block_same_key:
  assumes "dot_block E symbol st = Inr r"
  shows "case r of Continue s \<Rightarrow> same_key st s | Fallthrough s \<Rightarrow> same_key st s"
  using assms
  by (auto simp add: dot_block_def Let_def raise_def dest!: alloc_same_key
      split: if_splits list.splits sum.splits)

lemma rest_block_same_key:
  assumes "rest_block E symbol st = Inr r"
  shows "case r of Continue s \<Rightarrow> same_key st s | Fallthrough s \<Rightarrow> same_key st s"
  using assms
  by (auto simp add: rest_block_def Let_def raise_def dest!: alloc_same_key
      split: if_splits option.splits sum.splits)

lemma custos_block_same_key:
  assumes "custos_block E ix_staff symbol st = Inr r"
  shows "case r of Continue s \<Rightarrow> same_key st s | Fallthrough s \<Rightarrow> same_key st s"
  using assms
  by (auto simp add: custos_block_def Let_def raise_def dest!: alloc_same_key
      split: if_splits option.splits sum.splits)

lemma bar_block_same_key:
  assumes "bar_block E ix_staff symbol st = Inr r"
  shows "case r of Continue s \<Rightarrow> same_key st s | Fallthrough s \<Rightarrow> same_key st s"
proof (cases "type symbol = ''bar''")
  case True
  from bar_block_Inr[OF True assms] show ?thesis by (auto simp add: same_key_def)
next
  case False
  then show ?thesis using assms by (auto simp add: bar_block_def)
qed

lemma open_ligature_same_key:
  assumes "open_ligature E oct pname nt st = Inr r"
  shows "case r of Continue s \<Rightarrow> same_key st s | Fallthrough s \<Rightarrow> same_key st s"
  using assms
  by (auto simp add: open_ligature_def Let_def dest!: alloc_same_key
      split: if_splits sum.splits)

lemma plain_note_same_key:
  assumes "plain_note E oct pname nt st = Inr r"
  shows "case r of Continue s \<Rightarrow> same_key st s | Fallthrough s \<Rightarrow> same_key st s"
proof -
  obtain note1 st1 where 1: "close_ligature E oct pname nt st = (note1, st1)"
    by (cases "close_ligature E oct pname nt st")
  obtain note2 st2 where 2: "apply_sharp E note1 st1 = (note2, st2)"
    by (cases "apply_sharp E note1 st1")
  obtain note3 st3 where 3: "apply_flat E note2 st2 = (note3, st3)"
    by (cases "apply_flat E note2 st2")
  have k1: "same_key st st1" using 1 by (auto simp add: close_ligature_def Let_def split: if_splits)
  have k2: "same_key st1 st2" using 2 by (auto simp add: apply_sharp_def split: if_splits)
  have k3: "same_key st2 st3" using 3 by (auto simp add: apply_flat_def split: if_splits)
  have k: "same_key st st3" using k1 k2 k3 by (blast intro: same_key_trans)
  have p: "same_key st (place_note b lig n s) = same_key st s" for b lig n s
    by (simp add: place_note_def split: ref.splits)
  show ?thesis using assms 1 2 3 k
    by (auto simp add: plain_note_def Let_def raise_def p split: if_splits)
qed

lemma note_block_same_key:
  assumes "note_block E symbol st = Inr r"
  shows "case r of Continue s \<Rightarrow> same_key st s | Fallthrough s \<Rightarrow> same_key st s"
proof (cases "map_of NOTES_MEI (type symbol)")
  case None
  then show ?thesis using assms by (auto simp add: note_block_def)
next
  case (Some d)
  from assms Some obtain c where c: "clef st = Some c"
    by (auto simp add: note_block_def raise_def Let_def split: option.splits)
  from assms Some c obtain oct pname where a: "analyse_note c (pitch symbol) = Inr (oct, pname)"
    by (auto simp add: note_block_def raise_def Let_def split: sum.splits)
  from assms Some c a obtain x st1 where al: "alloc E ''note'' st = Inr (x, st1)"
    by (auto simp add: note_block_def Let_def split: sum.splits)
  from assms Some c a al obtain st2 where nl: "note_line E (type symbol) oct pname st1 = Inr st2"
    by (auto simp add: note_block_def Let_def split: sum.splits)
  from note_line_Inr[OF nl] obtain l where s2: "st2 = st1\<lparr>line_humdrum := l\<rparr>" by blast
  have k2: "same_key st st2" using alloc_same_key[OF al] by (simp add: s2)
  from assms Some c a al nl obtain nt where
    "open_ligature E oct pname nt st2 = Inr r \<or> plain_note E oct pname nt st2 = Inr r"
    by (auto simp add: note_block_def Let_def split: if_splits)
  then have "case r of Continue s \<Rightarrow> same_key st2 s | Fallthrough s \<Rightarrow> same_key st2 s"
    using open_ligature_same_key plain_note_same_key by blast
  then show ?thesis using k2 by (auto split: flow.splits intro: same_key_trans)
qed

lemma andthen_same_key:
  assumes "andthen r f = Inr q"
    and "\<And>x. r = Inr x \<Longrightarrow> (case x of Continue s \<Rightarrow> same_key st s | Fallthrough s \<Rightarrow> same_key st s)"
    and "\<And>s x. f s = Inr x \<Longrightarrow> (case x of Continue s' \<Rightarrow> same_key s s' | Fallthrough s' \<Rightarrow> same_key s s')"
  shows "case q of Continue s \<Rightarrow> same_key st s | Fallthrough s \<Rightarrow> same_key st s"
proof (cases r)
  case (Inl a)
  then show ?thesis using assms(1) by simp
next
  case (Inr fl)
  show ?thesis
  proof (cases fl)
    case (Continue s)
    then show ?thesis using assms(1,2) Inr by auto
  next
    case (Fallthrough s)
    then have 1: "same_key st s" using assms(2)[OF Inr] by simp
    have "f s = Inr q" using assms(1) Inr Fallthrough by simp
    from assms(3)[OF this] 1 show ?thesis by (auto split: flow.splits intro: same_key_trans)
  qed
qed

lemma blocks_same_key:
  assumes "blocks E ix_staff symbol st = Inr st'"
  shows "same_key st st'"
proof -
  from assms obtain q where q: "andthen (mens_block E symbol st) (\<lambda>st.
          andthen (dot_block E symbol st) (\<lambda>st.
          andthen (rest_block E symbol st) (\<lambda>st.
          andthen (note_block E symbol st) (\<lambda>st.
          andthen (bar_block E ix_staff symbol st) (\<lambda>st.
          custos_block E ix_staff symbol st))))) = Inr q"
    and f: "(case q of Continue s \<Rightarrow> Inr s | Fallthrough s \<Rightarrow> append_line E s) = Inr st'"
    by (auto simp add: blocks_def split: sum.splits)
  have "case q of Continue s \<Rightarrow> same_key st s | Fallthrough s \<Rightarrow> same_key st s"
    by (rule andthen_same_key[OF q] andthen_same_key mens_block_same_key dot_block_same_key
        rest_block_same_key note_block_same_key bar_block_same_key custos_block_same_key
        | assumption)+
  then show ?thesis using f
    by (auto split: flow.splits dest!: append_line_same_key intro: same_key_trans)
qed

lemma process_symbol_same_key:
  assumes "resolved st" and "process_symbol E ix_staff ix_symbol symbol st = Inr st'"
  shows "same_key st st'"
  using assms
  by (auto simp add: process_symbol_def accidentals_and_blocks_def raise_def resolved_def
      same_key_def[of st "st\<lparr>clef := Some symbol\<rparr>"]
      split: if_splits option.splits clef_var.splits dest!: blocks_same_key)






section \<open>A ligature of two notes\<close>

lemma process_symbols_same_key:
  assumes "resolved st" and "process_symbols E ix_staff ix_symbol staff st = Inr st'"
  shows "same_key st st'"
  using assms
proof (induction staff arbitrary: ix_symbol st)
  case Nil
  then show ?case by simp
next
  case (Cons s rest)
  from Cons.prems(2) obtain st1 where 1: "process_symbol E ix_staff ix_symbol s st = Inr st1"
    and 2: "process_symbols E ix_staff (ix_symbol + 1) rest st1 = Inr st'"
    by (auto split: sum.splits)
  note k = process_symbol_same_key[OF Cons.prems(1) 1]
  from Cons.IH[OF same_key_resolved[OF k Cons.prems(1)] 2] k show ?case
    by (blast intro: same_key_trans)
qed

text \<open>
  A staff that does not begin a document leaves clef and key as they are: the key is
  resolved only in the block under \<^verbatim>\<open>if first_staff\<close>.
\<close>

lemma key_kept_within_document:
  assumes "resolved st" and "\<not> first_staff st" and "process_staff E ix_staff staff st = Inr st'"
  shows "same_key st st'"
proof -
  define st0 where "st0 = st\<lparr>saved := False, sharp_found := False, flat_found := False,
    ligature := False\<rparr>"
  have b: "begin_staff E staff st = Inr st0"
    using assms(2) by (simp add: begin_staff_def Let_def st0_def)
  have k0: "same_key st st0" by (simp add: st0_def)
  from assms(3) b obtain st2 where 2: "process_symbols E ix_staff 0 staff st0 = Inr st2"
    and 3: "end_staff E ix_staff st2 = Inr st'"
    by (auto simp add: process_staff_def split: sum.splits)
  have k2: "same_key st0 st2"
    by (rule process_symbols_same_key[OF same_key_resolved[OF k0 assms(1)] 2])
  have k3: "same_key st2 st'"
    using 3 by (auto simp add: end_staff_def split: if_splits sum.splits dest!: alloc_same_key)
  show ?thesis using k0 k2 k3 by (blast intro: same_key_trans)
qed

lemma plain_note_free:
  assumes "\<not> ligature st" and "plain_note E oct pname nt st = Inr r"
  shows "\<exists>st' nt'. r = Fallthrough st'
     \<and> xml_layer (mei st') = xml_layer (mei st) @ [nt'] \<and> tag nt' = tag nt
     \<and> \<not> ligature st'"
proof -
  obtain note2 st2 where 2: "apply_sharp E nt st = (note2, st2)"
    by (cases "apply_sharp E nt st")
  obtain note3 st3 where 3: "apply_flat E note2 st2 = (note3, st3)"
    by (cases "apply_flat E note2 st2")
  define st4 where "st4 = (if humdrum E then st3\<lparr>humdrum_line := line_humdrum st3\<rparr> else st3)"
  have 1: "close_ligature E oct pname nt st = (nt, st)"
    using assms(1) by (simp add: close_ligature_def)
  have r: "r = Fallthrough (add_child note3 st4)"
    using assms 1 2 3 by (simp add: plain_note_def place_note_def Let_def st4_def)
  have n2: "tag note2 = tag nt" "mei st2 = mei st" "ligature st2 = ligature st"
    using 2 by (auto simp add: apply_sharp_def split: if_splits)
  have n3: "tag note3 = tag note2" "mei st3 = mei st2" "ligature st3 = ligature st2"
    using 3 by (auto simp add: apply_flat_def split: if_splits)
  have "xml_layer (mei (add_child note3 st4)) = xml_layer (mei st) @ [note3]"
    "tag note3 = tag nt" "\<not> ligature (add_child note3 st4)"
    using assms(1) by (simp_all add: st4_def n2 n3)
  then show ?thesis using r by blast
qed

lemma note_block_free:
  assumes "map_of NOTES_MEI (type s) = Some d" and "type s \<noteq> ''li''"
    and "\<not> ligature st" and "note_block E s st = Inr r"
  shows "\<exists>st' nt. r = Fallthrough st'
     \<and> xml_layer (mei st') = xml_layer (mei st) @ [nt] \<and> tag nt = ''note''
     \<and> \<not> ligature st'"
proof -
  from assms obtain c where c: "clef st = Some c"
    by (auto simp add: note_block_def raise_def Let_def split: option.splits)
  from assms c obtain oct pname where a: "analyse_note c (pitch s) = Inr (oct, pname)"
    by (auto simp add: note_block_def raise_def Let_def split: sum.splits)
  from assms c a obtain x st1 where al: "alloc E ''note'' st = Inr (x, st1)"
    by (auto simp add: note_block_def Let_def split: sum.splits)
  define note0 where "note0 = Element ''note''
      [(xml_id, x), (''dur'', d), (''oct'', str_int oct), (''pname'', pname)] []"
  define nt where "nt = (if type s = ''br'' \<or> type s = ''sb''
                                 then set_on ''colored'' ''true'' note0 else note0)"
  from assms c a al obtain st2 where nl: "note_line E (type s) oct pname st1 = Inr st2"
    by (auto simp add: note_block_def Let_def split: sum.splits)
  have r: "plain_note E oct pname nt st2 = Inr r"
    using assms c a al nl
    by (simp add: note_block_def Let_def nt_def note0_def split del: if_split cong: if_cong)
  note s1 = alloc_Inr(1)[OF al]
  from note_line_Inr[OF nl] obtain l where s2: "st2 = st1\<lparr>line_humdrum := l\<rparr>" by blast
  have f: "\<not> ligature st2" "mei st2 = mei st"
    using assms(3) by (simp_all add: s2 s1)
  have t: "tag nt = ''note''" by (simp add: nt_def note0_def)
  from plain_note_free[OF f(1) r] t f(2) show ?thesis by auto
qed

text \<open>
  Claim C7, as the code has it. A note of kind \<^verbatim>\<open>li\<close> followed by a note of any kind of the
  note vocabulary. When the second note is not of kind \<^verbatim>\<open>li\<close>, the layer gains exactly one
  element, a ligature whose children are exactly two notes, the duration of the second
  note is \<^verbatim>\<open>semibrevis\<close>, and the ligature is closed: the flag is cleared, and a further
  note of a kind other than \<^verbatim>\<open>li\<close> is added to the layer, after the ligature. When the
  second note is of kind \<^verbatim>\<open>li\<close> it does not close the ligature but opens a second one:
  the layer gains two ligatures with one note each, and the second one is open.
\<close>

theorem ligature_pair:
  assumes "resolved st" and "type s1 = ''li''"
    and "map_of NOTES_MEI (type s2) = Some d"
    and "process_symbol E ix_staff ix_symbol s1 st = Inr st1"
    and "process_symbol E ix_staff (ix_symbol + 1) s2 st1 = Inr st2"
  shows "if type s2 = ''li''
    then (\<exists>lig1 lig2 n1 n2. xml_layer (mei st2) = xml_layer (mei st) @ [lig1, lig2]
       \<and> tag lig1 = ''ligature'' \<and> children lig1 = [n1] \<and> tag n1 = ''note''
       \<and> tag lig2 = ''ligature'' \<and> children lig2 = [n2] \<and> tag n2 = ''note''
       \<and> ligature st2 \<and> xml_lig st2 = Current (length (xml_layer (mei st)) + 1))
    else (\<exists>lig n1 n2. xml_layer (mei st2) = xml_layer (mei st) @ [lig]
       \<and> tag lig = ''ligature'' \<and> children lig = [n1, n2]
       \<and> tag n1 = ''note'' \<and> tag n2 = ''note''
       \<and> map_of (attrib n2) ''dur'' = Some ''semibrevis''
       \<and> \<not> ligature st2
       \<and> (\<forall>s3 d3 j st3. map_of NOTES_MEI (type s3) = Some d3 \<and> type s3 \<noteq> ''li''
             \<and> process_symbol E ix_staff j s3 st2 = Inr st3
           \<longrightarrow> (\<exists>n3. xml_layer (mei st3) = xml_layer (mei st) @ [lig, n3]
                  \<and> tag n3 = ''note'' \<and> \<not> ligature st3)))"
proof -
  have d1: "map_of NOTES_MEI (type s1) = Some ''semibrevis''"
    using assms(2) by (simp add: NOTES_MEI_def)
  have "(case note_block E s1 st of
       Inl e \<Rightarrow> Inl e | Inr (Continue s') \<Rightarrow> Inr s' | Inr (Fallthrough s') \<Rightarrow> append_line E s')
       = Inr st1"
    using assms(4) process_symbol_note[OF assms(1) d1, of E ix_staff ix_symbol] by simp
  then obtain r1 where r1: "note_block E s1 st = Inr r1"
    and r1': "(case r1 of Continue s' \<Rightarrow> Inr s' | Fallthrough s' \<Rightarrow> append_line E s') = Inr st1"
    by (auto split: sum.splits)
  from note_block_li[OF assms(2) r1] r1' obtain n1 y where 1:
    "xml_layer (mei st1) = xml_layer (mei st)
          @ [Element ''ligature'' [(xml_id, y), (''form'', ''recta'')] [n1]]"
    "tag n1 = ''note''" "ligature st1" "xml_lig st1 = Current (length (xml_layer (mei st)))"
    "initial_clef st1 = initial_clef st" "clef st1 = clef st" "initial_key st1 = initial_key st"
    by auto
  have res1: "resolved st1" using resolved_cong[OF assms(1) 1(5,6,7)] .
  have res2: "resolved st2"
    by (rule same_key_resolved[OF process_symbol_same_key[OF res1 assms(5)] res1])
  have "(case note_block E s2 st1 of
       Inl e \<Rightarrow> Inl e | Inr (Continue s') \<Rightarrow> Inr s' | Inr (Fallthrough s') \<Rightarrow> append_line E s')
       = Inr st2"
    using assms(5) process_symbol_note[OF res1 assms(3), of E ix_staff "ix_symbol + 1"] by simp
  then obtain r2 where r2: "note_block E s2 st1 = Inr r2"
    and r2': "(case r2 of Continue s' \<Rightarrow> Inr s' | Fallthrough s' \<Rightarrow> append_line E s') = Inr st2"
    by (auto split: sum.splits)
  show ?thesis
  proof (cases "type s2 = ''li''")
    case True
    from note_block_li[OF True r2] r2' obtain n2 z where 2:
      "xml_layer (mei st2) = xml_layer (mei st1)
          @ [Element ''ligature'' [(xml_id, z), (''form'', ''recta'')] [n2]]"
      "tag n2 = ''note''" "ligature st2" "xml_lig st2 = Current (length (xml_layer (mei st1)))"
      by auto
    define lig1 where "lig1 = Element ''ligature'' [(xml_id, y), (''form'', ''recta'')] [n1]"
    define lig2 where "lig2 = Element ''ligature'' [(xml_id, z), (''form'', ''recta'')] [n2]"
    have "xml_layer (mei st2) = xml_layer (mei st) @ [lig1, lig2]"
      by (simp add: 2(1) 1(1) lig1_def lig2_def)
    moreover have "tag lig1 = ''ligature''" "children lig1 = [n1]"
      "tag lig2 = ''ligature''" "children lig2 = [n2]"
      by (simp_all add: lig1_def lig2_def)
    moreover have "xml_lig st2 = Current (length (xml_layer (mei st)) + 1)"
      by (simp add: 2(4) 1(1))
    ultimately have A: "\<exists>lig1 lig2 n1 n2. xml_layer (mei st2) = xml_layer (mei st) @ [lig1, lig2]
       \<and> tag lig1 = ''ligature'' \<and> children lig1 = [n1] \<and> tag n1 = ''note''
       \<and> tag lig2 = ''ligature'' \<and> children lig2 = [n2] \<and> tag n2 = ''note''
       \<and> ligature st2 \<and> xml_lig st2 = Current (length (xml_layer (mei st)) + 1)"
      using 1(2) 2(2,3) by blast
    show ?thesis by (subst if_P[OF True]) (rule A)
  next
    case False
    from note_block_closing[OF assms(3) False 1(3,4) r2] obtain st' n2 where 2:
      "r2 = Fallthrough st'"
      "xml_layer (mei st') = update_at (length (xml_layer (mei st))) (append_to n2) (xml_layer (mei st1))"
      "tag n2 = ''note''" "map_of (attrib n2) ''dur'' = Some ''semibrevis''" "\<not> ligature st'"
      by blast
    from r2' 2(1) have "append_line E st' = Inr st2" by simp
    from append_line_Inr[OF this] have m: "mei st2 = mei st'" "ligature st2 = ligature st'" by auto
    define lig where "lig = Element ''ligature'' [(xml_id, y), (''form'', ''recta'')] [n1, n2]"
    have l2: "xml_layer (mei st2) = xml_layer (mei st) @ [lig]"
      by (simp add: m 2(2) 1(1) update_at_def append_to_def lig_def)
    have c2: "\<not> ligature st2" using m(2) 2(5) by simp
    have third: "\<exists>n3. xml_layer (mei st3) = xml_layer (mei st) @ [lig, n3]
                  \<and> tag n3 = ''note'' \<and> \<not> ligature st3"
      if h: "map_of NOTES_MEI (type s3) = Some d3" "type s3 \<noteq> ''li''"
        "process_symbol E ix_staff j s3 st2 = Inr st3" for s3 d3 j st3
    proof -
      have "(case note_block E s3 st2 of
         Inl e \<Rightarrow> Inl e | Inr (Continue s') \<Rightarrow> Inr s' | Inr (Fallthrough s') \<Rightarrow> append_line E s')
         = Inr st3"
        using h(3) process_symbol_note[OF res2 h(1), of E ix_staff j] by simp
      then obtain r3 where r3: "note_block E s3 st2 = Inr r3"
        and r3': "(case r3 of Continue s' \<Rightarrow> Inr s' | Fallthrough s' \<Rightarrow> append_line E s') = Inr st3"
        by (auto split: sum.splits)
      from note_block_free[OF h(1,2) c2 r3] obtain s' n3 where 3:
        "r3 = Fallthrough s'" "xml_layer (mei s') = xml_layer (mei st2) @ [n3]"
        "tag n3 = ''note''" "\<not> ligature s'"
        by blast
      from r3' 3(1) have "append_line E s' = Inr st3" by simp
      from append_line_Inr[OF this] have "mei st3 = mei s'" "ligature st3 = ligature s'" by auto
      then show ?thesis using 3 l2 by simp
    qed
    have all3: "\<forall>s3 d3 j st3. map_of NOTES_MEI (type s3) = Some d3 \<and> type s3 \<noteq> ''li''
             \<and> process_symbol E ix_staff j s3 st2 = Inr st3
           \<longrightarrow> (\<exists>n3. xml_layer (mei st3) = xml_layer (mei st) @ [lig, n3]
                  \<and> tag n3 = ''note'' \<and> \<not> ligature st3)"
    proof (intro allI impI)
      fix s3 d3 j st3
      assume a: "map_of NOTES_MEI (type s3) = Some d3 \<and> type s3 \<noteq> ''li''
             \<and> process_symbol E ix_staff j s3 st2 = Inr st3"
      show "\<exists>n3. xml_layer (mei st3) = xml_layer (mei st) @ [lig, n3]
                  \<and> tag n3 = ''note'' \<and> \<not> ligature st3"
        by (rule third[of s3 d3 j st3]) (use a in simp_all)
    qed
    have tl: "tag lig = ''ligature''" "children lig = [n1, n2]" by (simp_all add: lig_def)
    have B: "\<exists>lig n1 n2. xml_layer (mei st2) = xml_layer (mei st) @ [lig]
       \<and> tag lig = ''ligature'' \<and> children lig = [n1, n2]
       \<and> tag n1 = ''note'' \<and> tag n2 = ''note''
       \<and> map_of (attrib n2) ''dur'' = Some ''semibrevis''
       \<and> \<not> ligature st2
       \<and> (\<forall>s3 d3 j st3. map_of NOTES_MEI (type s3) = Some d3 \<and> type s3 \<noteq> ''li''
             \<and> process_symbol E ix_staff j s3 st2 = Inr st3
           \<longrightarrow> (\<exists>n3. xml_layer (mei st3) = xml_layer (mei st) @ [lig, n3]
                  \<and> tag n3 = ''note'' \<and> \<not> ligature st3))"
      apply (rule exI[of _ lig])
      apply (rule exI[of _ n1])
      apply (rule exI[of _ n2])
      apply (intro conjI)
             apply (rule l2)
            apply (rule tl(1))
           apply (rule tl(2))
          apply (rule 1(2))
         apply (rule 2(3))
        apply (rule 2(4))
       apply (rule c2)
      apply (rule all3)
      done
    show ?thesis by (subst if_not_P[OF False]) (rule B)
  qed
qed


theorem ligature_pair_witness:
  "\<exists>st1 st2 st3 lig n1 n2 n3. resolved example_state \<and> type (note_symbol ''li'' ''g1'') = ''li''
     \<and> map_of NOTES_MEI (type (note_symbol ''mi'' ''a1'')) = Some ''minima''
     \<and> process_symbol example_env 0 3 (note_symbol ''li'' ''g1'') example_state = Inr st1
     \<and> process_symbol example_env 0 (3 + 1) (note_symbol ''mi'' ''a1'') st1 = Inr st2
     \<and> process_symbol example_env 0 5 (note_symbol ''sm'' ''g1'') st2 = Inr st3
     \<and> xml_layer (mei st2) = xml_layer (mei example_state) @ [lig]
     \<and> tag lig = ''ligature'' \<and> children lig = [n1, n2]
     \<and> tag n1 = ''note'' \<and> tag n2 = ''note''
     \<and> map_of (attrib n2) ''dur'' = Some ''semibrevis''
     \<and> \<not> ligature st2
     \<and> xml_layer (mei st3) = xml_layer (mei example_state) @ [lig, n3]
     \<and> tag n3 = ''note'' \<and> \<not> ligature st3"
proof -
  have t: "type (note_symbol ''li'' ''g1'') = ''li''"
    "map_of NOTES_MEI (type (note_symbol ''mi'' ''a1'')) = Some ''minima''"
    by (simp_all add: note_symbol_def NOTES_MEI_def)
  have n: "type (note_symbol ''mi'' ''a1'') \<noteq> ''li''"
    "map_of NOTES_MEI (type (note_symbol ''sm'' ''g1'')) = Some ''semiminima''"
    "type (note_symbol ''sm'' ''g1'') \<noteq> ''li''"
    by (simp_all add: note_symbol_def NOTES_MEI_def)
  have "(case process_symbol example_env 0 3 (note_symbol ''li'' ''g1'') example_state of
           Inl e \<Rightarrow> False
         | Inr st1 \<Rightarrow>
            (case process_symbol example_env 0 (3 + 1) (note_symbol ''mi'' ''a1'') st1 of
               Inl e \<Rightarrow> False
             | Inr st2 \<Rightarrow>
                (case process_symbol example_env 0 5 (note_symbol ''sm'' ''g1'') st2 of
                   Inl e \<Rightarrow> False | Inr st3 \<Rightarrow> True)))"
    by (simp add: example_state_def example_env_def run_defs cong: let_weak_cong)
  then obtain st1 st2 st3 where
    1: "process_symbol example_env 0 3 (note_symbol ''li'' ''g1'') example_state = Inr st1"
    and 2: "process_symbol example_env 0 (3 + 1) (note_symbol ''mi'' ''a1'') st1 = Inr st2"
    and 3: "process_symbol example_env 0 5 (note_symbol ''sm'' ''g1'') st2 = Inr st3"
    by (auto split: sum.splits)
  from ligature_pair[OF example_state_resolved t 1 2] n(1)
  obtain lig n1 n2 where p:
    "xml_layer (mei st2) = xml_layer (mei example_state) @ [lig]"
    "tag lig = ''ligature''" "children lig = [n1, n2]" "tag n1 = ''note''" "tag n2 = ''note''"
    "map_of (attrib n2) ''dur'' = Some ''semibrevis''" "\<not> ligature st2"
    and q: "\<forall>s3 d3 j st3. map_of NOTES_MEI (type s3) = Some d3 \<and> type s3 \<noteq> ''li''
             \<and> process_symbol example_env 0 j s3 st2 = Inr st3
           \<longrightarrow> (\<exists>n3. xml_layer (mei st3) = xml_layer (mei example_state) @ [lig, n3]
                  \<and> tag n3 = ''note'' \<and> \<not> ligature st3)"
    by (simp only: if_False) (elim exE conjE, blast)
  from q n(2,3) 3 obtain n3 where r:
    "xml_layer (mei st3) = xml_layer (mei example_state) @ [lig, n3]"
    "tag n3 = ''note''" "\<not> ligature st3"
    by blast
  show ?thesis using example_state_resolved t 1 2 3 p r by blast
qed

section \<open>The identifiers are never repeated\<close>

lemma generate_random_numbers_good:
  assumes "generate_random_numbers draws n numbers = Some pool"
    and "good_pool numbers"
  shows "good_pool pool \<and> n \<le> length pool"
  using assms
proof (induction draws arbitrary: numbers)
  case Nil
  then show ?case by (auto split: if_splits)
next
  case (Cons draw draws)
  show ?case
  proof (cases "n \<le> length numbers")
    case True
    then show ?thesis using Cons.prems by simp
  next
    case False
    have l: "length (random_number draw) = 10" by (simp add: random_number_def)
    have g: "good_pool (List.insert (random_number draw) numbers)"
      using Cons.prems(2) l by (auto simp add: good_pool_def List.insert_def)
    from Cons.prems(1) False
    have "generate_random_numbers draws n (List.insert (random_number draw) numbers) = Some pool"
      by simp
    from Cons.IH[OF this g] show ?thesis .
  qed
qed

lemma generated_pool_good:
  assumes "generate_random_numbers draws n [] = Some numbers"
    and "distinct pool" and "set pool = set numbers"
  shows "good_pool pool \<and> n \<le> length pool"
proof -
  have "good_pool []" by (simp add: good_pool_def)
  from generate_random_numbers_good[OF assms(1) this]
  have g: "distinct numbers" "list_all (\<lambda>e. length e = 10) numbers" "n \<le> length numbers"
    by (simp_all add: good_pool_def)
  have "length pool = length numbers"
    using assms(2,3) g(1) by (metis distinct_card)
  then show ?thesis using assms(2,3) g by (simp add: good_pool_def list_all_iff)
qed

lemma issued_mono: "c \<le> c' \<Longrightarrow> issued E c \<subseteq> issued E c'"
  unfolding issued_def by (rule subsetI) (use le_trans in blast)

lemma fresh_id:
  assumes "good_pool (ids E)" and "c + 1 < length (ids E)"
  shows "prefix @ ''-'' @ ids E ! (c + 1) \<notin> issued E c"
proof
  assume "prefix @ ''-'' @ ids E ! (c + 1) \<in> issued E c"
  then obtain p k where k: "k \<le> c" "k < length (ids E)"
    and eq: "prefix @ ''-'' @ ids E ! (c + 1) = p @ ''-'' @ ids E ! k"
    by (auto simp add: issued_def)
  have l: "length (ids E ! (c + 1)) = 10" "length (ids E ! k) = 10"
    using assms k by (simp_all add: good_pool_def list_all_length)
  have h: "(prefix @ ''-'') @ ids E ! (c + 1) = (p @ ''-'') @ ids E ! k" using eq by simp
  have "prefix @ ''-'' = p @ ''-'' \<and> ids E ! (c + 1) = ids E ! k"
    apply (rule iffD1[OF append_eq_append_conv])
    using l apply simp
    apply (rule h)
    done
  then have "ids E ! (c + 1) = ids E ! k" by simp
  then have "c + 1 = k"
    using assms k by (simp add: good_pool_def nth_eq_iff_index_eq)
  then show False using k by simp
qed

lemma issued_new: "c + 1 < length (ids E) \<Longrightarrow> prefix @ ''-'' @ ids E ! (c + 1) \<in> issued E (c + 1)"
  by (auto simp add: issued_def)

lemma id_inv_outputs: "id_inv E st \<Longrightarrow> distinct (emitted_ids (outputs st))"
  by (simp add: id_inv_def state_ids_def)

lemma id_inv_fields [simp]:
  "id_inv E (st\<lparr>used_filenames := a1\<rparr>) = id_inv E st"
  "id_inv E (st\<lparr>filename_counter := a2\<rparr>) = id_inv E st"
  "id_inv E (st\<lparr>filename := a3\<rparr>) = id_inv E st"
  "id_inv E (st\<lparr>humdrum_string := a4\<rparr>) = id_inv E st"
  "id_inv E (st\<lparr>first_staff := a5\<rparr>) = id_inv E st"
  "id_inv E (st\<lparr>saved := a6\<rparr>) = id_inv E st"
  "id_inv E (st\<lparr>initial_clef := a7\<rparr>) = id_inv E st"
  "id_inv E (st\<lparr>clef := a8\<rparr>) = id_inv E st"
  "id_inv E (st\<lparr>initial_key := a9\<rparr>) = id_inv E st"
  "id_inv E (st\<lparr>sharp_found := b1\<rparr>) = id_inv E st"
  "id_inv E (st\<lparr>flat_found := b2\<rparr>) = id_inv E st"
  "id_inv E (st\<lparr>ligature := b3\<rparr>) = id_inv E st"
  "id_inv E (st\<lparr>mensur := b4\<rparr>) = id_inv E st"
  "id_inv E (st\<lparr>xml_lig := b5\<rparr>) = id_inv E st"
  "id_inv E (st\<lparr>humdrum_line := b6\<rparr>) = id_inv E st"
  "id_inv E (st\<lparr>line_humdrum := b7\<rparr>) = id_inv E st"
  by (simp_all add: id_inv_def state_ids_def)

lemma state_ids_fields [simp]:
  "state_ids (st\<lparr>used_filenames := a1\<rparr>) = state_ids st"
  "state_ids (st\<lparr>filename_counter := a2\<rparr>) = state_ids st"
  "state_ids (st\<lparr>filename := a3\<rparr>) = state_ids st"
  "state_ids (st\<lparr>humdrum_string := a4\<rparr>) = state_ids st"
  "state_ids (st\<lparr>first_staff := a5\<rparr>) = state_ids st"
  "state_ids (st\<lparr>saved := a6\<rparr>) = state_ids st"
  "state_ids (st\<lparr>initial_clef := a7\<rparr>) = state_ids st"
  "state_ids (st\<lparr>clef := a8\<rparr>) = state_ids st"
  "state_ids (st\<lparr>initial_key := a9\<rparr>) = state_ids st"
  "state_ids (st\<lparr>sharp_found := b1\<rparr>) = state_ids st"
  "state_ids (st\<lparr>flat_found := b2\<rparr>) = state_ids st"
  "state_ids (st\<lparr>ligature := b3\<rparr>) = state_ids st"
  "state_ids (st\<lparr>mensur := b4\<rparr>) = state_ids st"
  "state_ids (st\<lparr>xml_lig := b5\<rparr>) = state_ids st"
  "state_ids (st\<lparr>humdrum_line := b6\<rparr>) = state_ids st"
  "state_ids (st\<lparr>line_humdrum := b7\<rparr>) = state_ids st"
  "state_ids (st\<lparr>id_counter := b8\<rparr>) = state_ids st"
  by (simp_all add: state_ids_def)

lemma ok_simps [simp]:
  "ok E (Inl (e, ws)) = distinct (emitted_ids ws)"
  "ok E (Inr st) = id_inv E st"
  "ok E (raise st e) = distinct (emitted_ids (outputs st))"
  by (simp_all add: ok_def raise_def)

lemma okf_simps [simp]:
  "okf E (Inl (e, ws)) = distinct (emitted_ids ws)"
  "okf E (Inr (Continue st)) = id_inv E st"
  "okf E (Inr (Fallthrough st)) = id_inv E st"
  "okf E (raise st e) = distinct (emitted_ids (outputs st))"
  by (simp_all add: okf_def raise_def)

lemma fresh_fields [simp]:
  "fresh E (st\<lparr>used_filenames := a1\<rparr>) x = fresh E st x"
  "fresh E (st\<lparr>filename_counter := a2\<rparr>) x = fresh E st x"
  "fresh E (st\<lparr>filename := a3\<rparr>) x = fresh E st x"
  "fresh E (st\<lparr>humdrum_string := a4\<rparr>) x = fresh E st x"
  "fresh E (st\<lparr>first_staff := a5\<rparr>) x = fresh E st x"
  "fresh E (st\<lparr>saved := a6\<rparr>) x = fresh E st x"
  "fresh E (st\<lparr>initial_clef := a7\<rparr>) x = fresh E st x"
  "fresh E (st\<lparr>clef := a8\<rparr>) x = fresh E st x"
  "fresh E (st\<lparr>initial_key := a9\<rparr>) x = fresh E st x"
  "fresh E (st\<lparr>sharp_found := b1\<rparr>) x = fresh E st x"
  "fresh E (st\<lparr>flat_found := b2\<rparr>) x = fresh E st x"
  "fresh E (st\<lparr>ligature := b3\<rparr>) x = fresh E st x"
  "fresh E (st\<lparr>mensur := b4\<rparr>) x = fresh E st x"
  "fresh E (st\<lparr>xml_lig := b5\<rparr>) x = fresh E st x"
  "fresh E (st\<lparr>humdrum_line := b6\<rparr>) x = fresh E st x"
  "fresh E (st\<lparr>line_humdrum := b7\<rparr>) x = fresh E st x"
  by (simp_all add: fresh_def)

lemma alloc_cases:
  assumes "good_pool (ids E)" and "id_inv E st"
  obtains (Raise) e where "alloc E prefix st = Inl (e, outputs st)"
  | (Id) x st1 where "alloc E prefix st = Inr (x, st1)" and "id_inv E st1" and "fresh E st1 x"
      and "\<And>y. fresh E st y \<Longrightarrow> fresh E st1 y \<and> y \<noteq> x"
      and "st1 = st\<lparr>id_counter := id_counter st + 1\<rparr>"
proof (cases "id_counter st + 1 < length (ids E)")
  case False
  then have "alloc E prefix st = Inl (IndexError, outputs st)"
    by (simp add: alloc_def new_id_def increment_idcounter_def raise_def)
  then show ?thesis by (rule Raise)
next
  case True
  define x where "x = prefix @ ''-'' @ ids E ! (id_counter st + 1)"
  define st1 where "st1 = st\<lparr>id_counter := id_counter st + 1\<rparr>"
  have a: "alloc E prefix st = Inr (x, st1)"
    using True by (simp add: alloc_def new_id_def increment_idcounter_def x_def st1_def)
  have n: "x \<notin> issued E (id_counter st)" unfolding x_def by (rule fresh_id[OF assms(1) True])
  have i: "x \<in> issued E (id_counter st + 1)" unfolding x_def by (rule issued_new[OF True])
  have m: "issued E (id_counter st) \<subseteq> issued E (id_counter st + 1)" by (rule issued_mono) simp
  have 1: "id_inv E st1" using assms(2) m by (auto simp add: id_inv_def st1_def)
  have 2: "fresh E st1 x" using assms(2) n i by (auto simp add: fresh_def id_inv_def st1_def)
  have 3: "\<And>y. fresh E st y \<Longrightarrow> fresh E st1 y \<and> y \<noteq> x"
    using n m by (auto simp add: fresh_def st1_def)
  show ?thesis using a 1 2 3 st1_def by (rule Id)
qed


lemma attr_ids_set_attr_other: "k \<noteq> xml_id \<Longrightarrow> attr_ids (set_attr a k v) = attr_ids a"
  by (simp add: attr_ids_def map_of_set_attr)

lemma attr_ids_set_attr_id: "attr_ids (set_attr a xml_id v) = [v]"
  by (simp add: attr_ids_def map_of_set_attr)

lemma attr_ids_Cons [simp]: "attr_ids ((xml_id, x) # a) = [x]"
  by (simp add: attr_ids_def)

lemma attr_ids_Nil [simp]: "attr_ids [] = []"
  by (simp add: attr_ids_def)

lemma element_ids_set_on: "k \<noteq> xml_id \<Longrightarrow> element_ids (set_on k v e) = element_ids e"
  by (cases e) (simp add: set_on_def attr_ids_set_attr_other)

lemma element_ids_append_to: "element_ids (append_to n e) = element_ids e @ element_ids n"
  by (cases e) (simp add: append_to_def)

lemma not_xml_id [simp]:
  "''dur'' \<noteq> xml_id" "''accid'' \<noteq> xml_id" "''colored'' \<noteq> xml_id" "''num'' \<noteq> xml_id"
  "''numbase'' \<noteq> xml_id" "''shape'' \<noteq> xml_id" "''line'' \<noteq> xml_id" "''sig'' \<noteq> xml_id"
  by (simp_all add: xml_id_def)

lemma element_ids_set_proportion: "element_ids (set_proportion e) = element_ids e"
  by (simp add: set_proportion_def element_ids_set_on)

lemma layer_ids_update_same:
  assumes "\<And>e. element_ids (f e) = element_ids e"
  shows "map element_ids (update_at i f es) = map element_ids es"
proof (cases "i < length es")
  case True
  have "map element_ids (es[i := f (es ! i)]) = (map element_ids es)[i := element_ids (es ! i)]"
    by (simp add: map_update assms)
  also have "\<dots> = (map element_ids es)[i := map element_ids es ! i]" using True by simp
  also have "\<dots> = map element_ids es" by (rule list_update_id)
  finally show ?thesis using True by (simp add: update_at_def)
next
  case False
  then show ?thesis by (simp add: update_at_def)
qed

lemma layer_ids_update_append_set:
  "set (concat (map element_ids (update_at i (append_to n) es)))
     = set (concat (map element_ids es)) \<union> (if i < length es then set (element_ids n) else {})"
proof (induction es arbitrary: i)
  case Nil
  then show ?case by (simp add: update_at_def)
next
  case (Cons e es)
  show ?case
  proof (cases i)
    case 0
    then show ?thesis by (auto simp add: update_at_def element_ids_append_to)
  next
    case (Suc j)
    have "update_at (Suc j) (append_to n) (e # es) = e # update_at j (append_to n) es"
      by (simp add: update_at_def)
    then show ?thesis using Cons.IH[of j] Suc by auto
  qed
qed

lemma layer_ids_update_append_distinct:
  assumes "distinct (concat (map element_ids es))" and "distinct (element_ids n)"
    and "set (element_ids n) \<inter> set (concat (map element_ids es)) = {}"
  shows "distinct (concat (map element_ids (update_at i (append_to n) es)))"
  using assms
proof (induction es arbitrary: i)
  case Nil
  then show ?case by (simp add: update_at_def)
next
  case (Cons e es)
  show ?case
  proof (cases i)
    case 0
    then show ?thesis using Cons.prems
      by (auto simp add: update_at_def element_ids_append_to)
  next
    case (Suc j)
    have u: "update_at (Suc j) (append_to n) (e # es) = e # update_at j (append_to n) es"
      by (simp add: update_at_def)
    have d: "distinct (concat (map element_ids (update_at j (append_to n) es)))"
      using Cons.IH[of j] Cons.prems by auto
    show ?thesis using Cons.prems d layer_ids_update_append_set[of j n es] Suc
      by (auto simp add: u split: if_splits)
  qed
qed

lemma id_inv_add_child:
  assumes "id_inv E st" and "distinct (element_ids e)"
    and "\<And>x. x \<in> set (element_ids e) \<Longrightarrow> fresh E st x"
  shows "id_inv E (add_child e st)"
  using assms
  by (auto simp add: id_inv_def state_ids_def document_ids_def add_child_def fresh_def)

lemma id_inv_append_child:
  assumes "id_inv E st" and "distinct (element_ids n)"
    and "\<And>x. x \<in> set (element_ids n) \<Longrightarrow> fresh E st x"
  shows "id_inv E (change_child i (append_to n) st)"
proof -
  define A where "A = emitted_ids (outputs st) @ scaffold (mei st) @ attr_ids (xml_clef (mei st))
     @ attr_ids (xml_keySign (mei st))"
  define L where "L = concat (map element_ids (xml_layer (mei st)))"
  define L' where "L' = concat (map element_ids (update_at i (append_to n) (xml_layer (mei st))))"
  have s0: "state_ids st = A @ L" by (simp add: state_ids_def document_ids_def A_def L_def)
  have s1: "state_ids (change_child i (append_to n) st) = A @ L'"
    by (simp add: state_ids_def document_ids_def A_def L'_def change_child_def)
  have c: "id_counter (change_child i (append_to n) st) = id_counter st" by simp
  have f: "set (element_ids n) \<inter> set (A @ L) = {}"
    "set (element_ids n) \<subseteq> issued E (id_counter st)"
    using assms(3) by (auto simp add: fresh_def s0)
  have i: "distinct A" "distinct L" "set A \<inter> set L = {}" "set (A @ L) \<subseteq> issued E (id_counter st)"
    using assms(1) by (simp_all add: id_inv_def s0)
  have s: "set L' \<subseteq> set L \<union> set (element_ids n)"
    unfolding L'_def L_def
    using layer_ids_update_append_set[of i n "xml_layer (mei st)"] by (auto split: if_splits)
  have d: "distinct L'"
    unfolding L'_def
    by (rule layer_ids_update_append_distinct) (use i(2) assms(2) f(1) in \<open>auto simp add: L_def\<close>)
  have "distinct (A @ L')" using i(1,3) d s f(1) by auto
  moreover have "set (A @ L') \<subseteq> issued E (id_counter st)" using i(4) s f(2) by auto
  ultimately show ?thesis unfolding id_inv_def s1 c by simp
qed

lemma id_inv_change_child_same:
  assumes "\<And>e. element_ids (f e) = element_ids e"
  shows "id_inv E (change_child i f st) = id_inv E st"
  by (simp add: id_inv_def state_ids_def document_ids_def change_child_def
      layer_ids_update_same[OF assms])

lemma fresh_change_child_same:
  assumes "\<And>e. element_ids (f e) = element_ids e"
  shows "fresh E (change_child i f st) x = fresh E st x"
  by (simp add: fresh_def state_ids_def document_ids_def change_child_def
      layer_ids_update_same[OF assms])

lemma id_inv_set_clef:
  assumes "id_inv E st" and "fresh E st x" and "attr_ids a = [x]"
  shows "id_inv E (st\<lparr>mei := (mei st)\<lparr>xml_clef := a\<rparr>\<rparr>)"
  using assms by (auto simp add: id_inv_def state_ids_def document_ids_def fresh_def)

lemma id_inv_set_keySign:
  assumes "id_inv E st" and "fresh E st x" and "attr_ids a = [x]"
  shows "id_inv E (st\<lparr>mei := (mei st)\<lparr>xml_keySign := a\<rparr>\<rparr>)"
  using assms by (auto simp add: id_inv_def state_ids_def document_ids_def fresh_def)

lemma new_id_Inr:
  assumes "new_id pool c p = Inr (x, c')"
  shows "c' = c + 1 \<and> c + 1 < length pool \<and> x = p @ ''-'' @ pool ! (c + 1)"
  using assms by (auto simp add: new_id_def increment_idcounter_def split: if_splits)

lemma new_ids_fresh:
  assumes "good_pool (ids E)" and "new_ids (ids E) c ps = Inr (xs, c')"
  shows "distinct xs \<and> set xs \<subseteq> issued E c' - issued E c \<and> c \<le> c'"
  using assms(2)
proof (induction ps arbitrary: c xs)
  case Nil
  then show ?case by simp
next
  case (Cons p ps)
  from Cons.prems obtain x c1 where 1: "new_id (ids E) c p = Inr (x, c1)"
    by (auto split: sum.splits)
  from Cons.prems 1 obtain ys where 2: "new_ids (ids E) c1 ps = Inr (ys, c')" and xs: "xs = x # ys"
    by (auto split: sum.splits)
  note n = new_id_Inr[OF 1]
  have x1: "x \<notin> issued E c" using fresh_id[OF assms(1), of c p] n by simp
  have x2: "x \<in> issued E c1" using issued_new[of c E p] n by simp
  from Cons.IH[OF 2] have ih: "distinct ys" "set ys \<subseteq> issued E c' - issued E c1" "c1 \<le> c'"
    by auto
  have m1: "issued E c \<subseteq> issued E c1" using n by (intro issued_mono) simp
  have m2: "issued E c1 \<subseteq> issued E c'" using ih(3) by (rule issued_mono)
  show ?case using x1 x2 ih m1 m2 n by (auto simp add: xs)
qed

lemma new_document:
  assumes "good_pool (ids E)" and "id_inv E st"
    and "create_mei_declarations (ids E) (id_counter st) = Inr (d, c)"
    and "outputs st' = outputs st @ [w]" and "mei_file w = mei st"
    and "mei st' = d" and "id_counter st' = c"
  shows "id_inv E st'"
proof -
  from assms(3) obtain xs where n: "new_ids (ids E) (id_counter st)
            [''mdiv'', ''score'', ''scoreDef'', ''staffGrp'', ''staffDef'', ''section'',
             ''staff'', ''layer''] = Inr (xs, c)"
    and d: "d = \<lparr>scaffold = xs, xml_clef = [], xml_keySign = [], xml_layer = []\<rparr>"
    by (auto simp add: create_mei_declarations_def split: sum.splits)
  note f = new_ids_fresh[OF assms(1) n]
  have m: "issued E (id_counter st) \<subseteq> issued E c" using f by (intro issued_mono) simp
  have s: "state_ids st' = state_ids st @ xs"
    by (simp add: state_ids_def emitted_ids_def document_ids_def assms(4,5,6) d attr_ids_Nil)
  show ?thesis using assms(2) f m by (auto simp add: id_inv_def s assms(7))
qed

lemma save_mei_file_ids:
  "emitted_ids (outputs (save_mei_file E ix st)) = state_ids st"
  by (simp add: save_mei_file_def Let_def state_ids_def emitted_ids_def)
lemma id_inv_add_leaf:
  assumes "id_inv E st" and "fresh E st x" and "element_ids e = [x]"
  shows "id_inv E (add_child e st)"
  using assms by (intro id_inv_add_child) simp_all

lemma append_line_ok:
  assumes "id_inv E st"
  shows "ok E (append_line E st)"
  using assms by (simp add: append_line_def id_inv_outputs split: option.splits)

lemma andthen_ok:
  assumes "okf E r" and "\<And>s. id_inv E s \<Longrightarrow> okf E (f s)"
  shows "okf E (andthen r f)"
proof (cases r)
  case (Inl a)
  then show ?thesis using assms(1) by simp
next
  case (Inr fl)
  show ?thesis
  proof (cases fl)
    case (Continue s)
    then show ?thesis using assms(1) Inr by simp
  next
    case (Fallthrough s)
    then have "id_inv E s" using assms(1) Inr by simp
    from assms(2)[OF this] show ?thesis using Inr Fallthrough by simp
  qed
qed

lemma finish_ok:
  assumes "okf E r"
  shows "ok E (case r of Inl e \<Rightarrow> Inl e | Inr (Continue s) \<Rightarrow> Inr s
                | Inr (Fallthrough s) \<Rightarrow> append_line E s)"
proof (cases r)
  case (Inl a)
  then show ?thesis using assms by (cases a) simp
next
  case (Inr fl)
  show ?thesis
  proof (cases fl)
    case (Continue s)
    then show ?thesis using assms Inr by simp
  next
    case (Fallthrough s)
    then have "id_inv E s" using assms Inr by simp
    from append_line_ok[OF this] show ?thesis using Inr Fallthrough by simp
  qed
qed

lemma mens_block_ok:
  assumes "good_pool (ids E)" and "id_inv E st"
  shows "okf E (mens_block E symbol st)"
proof (cases "type symbol = ''mens'' \<and> pitch symbol \<noteq> ''met_3_2''")
  case False
  then show ?thesis using assms(2)
    by (auto simp add: mens_block_def Let_def id_inv_outputs
        id_inv_change_child_same[OF element_ids_set_proportion]
        split: ref.splits list.splits)
next
  case True
  show ?thesis
  using assms proof (cases rule: alloc_cases[where prefix = "''mens''"])
    case (Raise e)
    then show ?thesis using True assms(2) by (simp add: mens_block_def id_inv_outputs)
  next
    case (Id x st1)
    have i: "id_inv E (add_child (Element ''mensur'' ((xml_id, x) # a) []) st1)" for a
      by (rule id_inv_add_leaf[OF Id(2,3)]) simp
    show ?thesis using True Id(1) i id_inv_outputs[OF Id(2)]
      by (auto simp add: mens_block_def Let_def split: sum.splits)
  qed
qed

lemma dot_block_ok:
  assumes "good_pool (ids E)" and "id_inv E st"
  shows "okf E (dot_block E symbol st)"
proof (cases "type symbol = ''dot''")
  case False
  then show ?thesis using assms(2) by (simp add: dot_block_def)
next
  case True
  show ?thesis
  using assms proof (cases rule: alloc_cases[where prefix = "''dot''"])
    case (Raise e)
    then show ?thesis using True assms(2) by (simp add: dot_block_def id_inv_outputs)
  next
    case (Id x st1)
    have i: "id_inv E (add_child (Element ''dot'' [(xml_id, x)] []) st1)"
      by (rule id_inv_add_leaf[OF Id(2,3)]) simp
    show ?thesis using True Id(1) i id_inv_outputs[OF i]
      by (auto simp add: dot_block_def Let_def split: list.splits)
  qed
qed

lemma rest_block_ok:
  assumes "good_pool (ids E)" and "id_inv E st"
  shows "okf E (rest_block E symbol st)"
proof (cases "map_of RESTS_MEI (type symbol)")
  case None
  then show ?thesis using assms(2) by (simp add: rest_block_def)
next
  case (Some d)
  show ?thesis
  using assms proof (cases rule: alloc_cases[where prefix = "''rest''"])
    case (Raise e)
    then show ?thesis using Some assms(2) by (simp add: rest_block_def id_inv_outputs)
  next
    case (Id x st1)
    have i: "id_inv E (add_child (Element ''rest'' [(xml_id, x), (''dur'', d)] []) st1)"
      by (rule id_inv_add_leaf[OF Id(2,3)]) simp
    show ?thesis using Some Id(1) i id_inv_outputs[OF i]
      by (auto simp add: rest_block_def Let_def split: option.splits)
  qed
qed

lemma custos_block_ok:
  assumes "good_pool (ids E)" and "id_inv E st"
  shows "okf E (custos_block E ix_staff symbol st)"
proof (cases "type symbol = ''custos''")
  case False
  then show ?thesis using assms(2) by (simp add: custos_block_def)
next
  case True
  show ?thesis
  using assms proof (cases rule: alloc_cases[where prefix = "''custos''"])
    case (Raise e)
    then show ?thesis using True assms(2) by (simp add: custos_block_def id_inv_outputs)
  next
    case (Id x st1)
    have i: "id_inv E (add_child (Element ''custos'' ((xml_id, x) # a) []) st1)"
      "id_inv E (add_child (Element ''custos'' ((xml_id, x) # a) []) (st1\<lparr>line_humdrum := l\<rparr>))" for a l
      by (rule id_inv_add_leaf[where x = x]; use Id(2,3) in simp)+
    show ?thesis using True Id(1) i id_inv_outputs[OF Id(2)]
      by (auto simp add: custos_block_def Let_def split: option.splits sum.splits)
  qed
qed

lemma note_line_ok:
  assumes "id_inv E st"
  shows "ok E (note_line E t oct pname st)"
  using assms
  by (auto simp add: note_line_def Let_def id_inv_outputs split: option.splits)

lemma plain_note_ok:
  assumes "id_inv E st" and "fresh E st x" and "element_ids nt = [x]"
  shows "okf E (plain_note E oct pname nt st)"
proof -
  obtain note1 st1 where 1: "close_ligature E oct pname nt st = (note1, st1)"
    by (cases "close_ligature E oct pname nt st")
  obtain note2 st2 where 2: "apply_sharp E note1 st1 = (note2, st2)"
    by (cases "apply_sharp E note1 st1")
  obtain note3 st3 where 3: "apply_flat E note2 st2 = (note3, st3)"
    by (cases "apply_flat E note2 st2")
  have n1: "element_ids note1 = [x]" "id_inv E st1" "fresh E st1 x"
    using 1 assms by (auto simp add: close_ligature_def Let_def element_ids_set_on split: if_splits)
  have n2: "element_ids note2 = [x]" "id_inv E st2" "fresh E st2 x"
    using 2 n1 by (auto simp add: apply_sharp_def element_ids_set_on split: if_splits)
  have n3: "element_ids note3 = [x]" "id_inv E st3" "fresh E st3 x"
    using 3 n2 by (auto simp add: apply_flat_def element_ids_set_on split: if_splits)
  define st4 where "st4 = (if humdrum E then st3\<lparr>humdrum_line := line_humdrum st3\<rparr> else st3)"
  have n4: "id_inv E st4" "fresh E st4 x" using n3 by (simp_all add: st4_def)
  have p: "id_inv E (place_note b lig note3 st4)" for b lig
    using n3(1) n4
    by (auto simp add: place_note_def intro!: id_inv_append_child id_inv_add_leaf[where x = x]
        split: ref.splits)
  show ?thesis
    using assms(1) 1 2 3 p
    by (simp add: plain_note_def Let_def id_inv_outputs st4_def)
qed

lemma open_ligature_ok:
  assumes "good_pool (ids E)" and "id_inv E st" and "fresh E st x" and "element_ids nt = [x]"
  shows "okf E (open_ligature E oct pname nt st)"
  using assms(1,2)
proof (cases rule: alloc_cases[where prefix = "''ligature''"])
  case (Raise e)
  then show ?thesis using assms(2) by (simp add: open_ligature_def id_inv_outputs)
next
  case (Id y st1)
  have f: "fresh E st1 x" "x \<noteq> y" using Id(4)[OF assms(3)] by simp_all
  have e: "element_ids (Element ''ligature'' [(xml_id, y), (''form'', ''recta'')] [nt]) = [y, x]"
    by (simp add: attr_ids_Cons assms(4))
  have "id_inv E (add_child (Element ''ligature'' [(xml_id, y), (''form'', ''recta'')] [nt]) st1)"
  proof (rule id_inv_add_child[OF Id(2)])
    show "distinct (element_ids (Element ''ligature'' [(xml_id, y), (''form'', ''recta'')] [nt]))"
      unfolding e using f(2) by simp
  next
    fix z
    assume "z \<in> set (element_ids (Element ''ligature'' [(xml_id, y), (''form'', ''recta'')] [nt]))"
    then have "z = y \<or> z = x" unfolding e by simp
    then show "fresh E st1 z" using Id(3) f(1) by auto
  qed
  then show ?thesis using Id(1) by (simp add: open_ligature_def Let_def)
qed

lemma note_block_ok:
  assumes "good_pool (ids E)" and "id_inv E st"
  shows "okf E (note_block E symbol st)"
proof (cases "map_of NOTES_MEI (type symbol)")
  case None
  then show ?thesis using assms(2) by (simp add: note_block_def)
next
  case (Some d)
  show ?thesis
  proof (cases "clef st")
    case None
    then show ?thesis using Some assms(2) by (simp add: note_block_def id_inv_outputs)
  next
    case c: (Some c)
    show ?thesis
    proof (cases "analyse_note c (pitch symbol)")
      case (Inl e)
      then show ?thesis using Some c assms(2) by (simp add: note_block_def id_inv_outputs)
    next
      case (Inr r)
      obtain oct pname where r: "r = (oct, pname)" by (cases r)
      show ?thesis
      using assms proof (cases rule: alloc_cases[where prefix = "''note''"])
        case (Raise e)
        then show ?thesis using Some c Inr r assms(2) by (simp add: note_block_def id_inv_outputs)
      next
        case (Id x st1)
        define note0 where "note0 = Element ''note''
            [(xml_id, x), (''dur'', d), (''oct'', str_int oct), (''pname'', pname)] []"
        define nt where "nt = (if type symbol = ''br'' \<or> type symbol = ''sb''
                                 then set_on ''colored'' ''true'' note0 else note0)"
        have e: "element_ids nt = [x]" by (simp add: nt_def note0_def element_ids_set_on)
        have eq: "note_block E symbol st =
            (case note_line E (type symbol) oct pname st1 of
               Inl e \<Rightarrow> Inl e
             | Inr st2 \<Rightarrow>
                 if type symbol = ''li'' then open_ligature E oct pname nt st2
                 else plain_note E oct pname nt st2)"
          unfolding nt_def note0_def using Some c Inr r Id(1)
          by (simp add: note_block_def Let_def split del: if_split cong: if_cong)
        show ?thesis
        proof (cases "note_line E (type symbol) oct pname st1")
          case (Inl a)
          then show ?thesis using note_line_ok[OF Id(2), of "type symbol" oct pname] eq
            by (cases a) simp
        next
          case st2: (Inr st2)
          from note_line_Inr[OF st2] obtain l where l: "st2 = st1\<lparr>line_humdrum := l\<rparr>" by blast
          have i2: "id_inv E st2" "fresh E st2 x" using Id(2,3) by (simp_all add: l)
          show ?thesis using eq st2 open_ligature_ok[OF assms(1) i2 e] plain_note_ok[OF i2 e]
            by simp
        qed
      qed
    qed
  qed
qed

lemma bar_block_ok:
  assumes "good_pool (ids E)" and "id_inv E st"
  shows "okf E (bar_block E ix_staff symbol st)"
proof (cases "type symbol = ''bar''")
  case False
  then show ?thesis using assms(2) by (simp add: bar_block_def)
next
  case True
  show ?thesis
  using assms proof (cases rule: alloc_cases[where prefix = "''barline''"])
    case (Raise e)
    then show ?thesis using True assms(2) by (simp add: bar_block_def id_inv_outputs)
  next
    case (Id x st1)
    define st2 where "st2 = add_child (Element ''barLine'' [(xml_id, x), (''form'', ''dbl'')] []) st1"
    define st3 where "st3 = (if humdrum E
         then st2\<lparr>humdrum_string := humdrum_string st2 @ [''=||'', ''*-'']\<rparr> else st2)"
    define st4 where "st4 = save_mei_file E ix_staff st3"
    have eq: "bar_block E ix_staff symbol st =
        (case create_mei_declarations (ids E) (id_counter st4) of
           Inl e \<Rightarrow> raise st4 e
         | Inr (d, c) \<Rightarrow>
             Inr (Continue (st4\<lparr>mei := d, id_counter := c, first_staff := True, saved := True,
                   mensur := retire (mensur st4), xml_lig := retire (xml_lig st4)\<rparr>)))"
      unfolding bar_block_def st4_def st3_def st2_def Let_def using True Id(1)
      by (simp split del: if_split cong: if_cong)
    have i2: "id_inv E st2" unfolding st2_def by (rule id_inv_add_leaf[OF Id(2,3)]) simp
    have i3: "id_inv E st3" using i2 by (simp add: st3_def)
    have o4: "distinct (emitted_ids (outputs st4))"
      using i3 by (simp add: st4_def save_mei_file_ids id_inv_def)
    obtain w where w: "outputs st4 = outputs st3 @ [w]" "mei_file w = mei st3"
      unfolding st4_def using save_mei_file_outputs[of E ix_staff st3] by blast
    have c4: "id_counter st4 = id_counter st3" by (simp add: st4_def)
    show ?thesis
    proof (cases "create_mei_declarations (ids E) (id_counter st4)")
      case (Inl e)
      then show ?thesis using eq o4 by simp
    next
      case (Inr r)
      obtain d c where r: "r = (d, c)" by (cases r)
      have "id_inv E (st4\<lparr>mei := d, id_counter := c, first_staff := True, saved := True,
                   mensur := retire (mensur st4), xml_lig := retire (xml_lig st4)\<rparr>)"
        by (rule new_document[OF assms(1) i3, of d c _ w])
           (use Inr r c4 w in simp_all)
      then show ?thesis using eq Inr r by simp
    qed
  qed
qed

lemma blocks_ok:
  assumes "good_pool (ids E)" and "id_inv E st"
  shows "ok E (blocks E ix_staff symbol st)"
proof -
  have "okf E (andthen (mens_block E symbol st) (\<lambda>st.
          andthen (dot_block E symbol st) (\<lambda>st.
          andthen (rest_block E symbol st) (\<lambda>st.
          andthen (note_block E symbol st) (\<lambda>st.
          andthen (bar_block E ix_staff symbol st) (\<lambda>st.
          custos_block E ix_staff symbol st))))))"
    by (intro andthen_ok mens_block_ok dot_block_ok rest_block_ok note_block_ok bar_block_ok
        custos_block_ok assms)
  from finish_ok[OF this] show ?thesis unfolding blocks_def .
qed

lemma process_symbol_ok:
  assumes "good_pool (ids E)" and "id_inv E st"
  shows "ok E (process_symbol E ix_staff ix_symbol symbol st)"
  using assms(2) blocks_ok[OF assms, of ix_staff symbol]
  by (auto simp add: process_symbol_def accidentals_and_blocks_def id_inv_outputs
      split: option.splits)

lemma process_symbols_ok:
  assumes "good_pool (ids E)" and "id_inv E st"
  shows "ok E (process_symbols E ix_staff ix_symbol staff st)"
  using assms(2)
proof (induction staff arbitrary: ix_symbol st)
  case Nil
  then show ?case by simp
next
  case (Cons symbol rest)
  show ?case
  proof (cases "process_symbol E ix_staff ix_symbol symbol st")
    case (Inl a)
    then show ?thesis using process_symbol_ok[OF assms(1) Cons.prems, of ix_staff ix_symbol symbol]
      by (cases a) simp
  next
    case (Inr st')
    then have "id_inv E st'"
      using process_symbol_ok[OF assms(1) Cons.prems, of ix_staff ix_symbol symbol] by simp
    from Cons.IH[OF this] show ?thesis using Inr by simp
  qed
qed

lemma set_key_signature_ok:
  assumes "good_pool (ids E)" and "id_inv E st"
  shows "ok E (set_key_signature E st)"
  using assms
proof (cases rule: alloc_cases[where prefix = "''keySig''"])
  case (Raise e)
  then show ?thesis using assms(2) by (simp add: set_key_signature_def id_inv_outputs)
next
  case (Id y st1)
  have "id_inv E (st1\<lparr>mei := (mei st1)\<lparr>xml_keySign :=
                      set_attr (set_attr (xml_keySign (mei st1)) xml_id y) ''sig'' ''1f''\<rparr>\<rparr>)"
    by (rule id_inv_set_keySign[OF Id(2,3)])
       (simp add: attr_ids_set_attr_other attr_ids_set_attr_id)
  then show ?thesis using Id(1) by (simp add: set_key_signature_def Let_def)
qed

lemma first_staff_block_ok:
  assumes "good_pool (ids E)" and "id_inv E st"
  shows "ok E (first_staff_block E staff st)"
proof (cases "find_initial_clef E staff st")
  case (Inl e)
  then show ?thesis using assms(2) by (simp add: first_staff_block_def id_inv_outputs)
next
  case (Inr r)
  obtain found flat where r: "r = (found, flat)" by (cases r)
  show ?thesis
  proof (cases found)
    case NotAssigned
    then show ?thesis using Inr r assms(2) by (simp add: first_staff_block_def id_inv_outputs)
  next
    case NoneValue
    then show ?thesis using Inr r assms(2) by (simp add: first_staff_block_def id_inv_outputs)
  next
    case (ClefDict c)
    show ?thesis
    proof (cases "analyse_clef c")
      case (Inl e)
      then show ?thesis using Inr r ClefDict assms(2)
        by (simp add: first_staff_block_def id_inv_outputs)
    next
      case sl: (Inr sl)
      obtain shape line where sl': "sl = (shape, line)" by (cases sl)
      from assms show ?thesis
      proof (cases rule: alloc_cases[where prefix = "''clef''"])
        case (Raise e)
        then show ?thesis using Inr r ClefDict sl sl' assms(2)
          by (simp add: first_staff_block_def id_inv_outputs)
      next
        case (Id x st1)
        define st2 where "st2 = st1\<lparr>first_staff := False, initial_clef := ClefDict c,
                                    clef := Some c, initial_key := Some [],
                                    mei := (mei st1)\<lparr>xml_clef :=
                                      set_attr (set_attr (set_attr (xml_clef (mei st1))
                                        xml_id x) ''shape'' shape) ''line'' line\<rparr>\<rparr>"
        have "id_inv E (st1\<lparr>mei := (mei st1)\<lparr>xml_clef :=
                                      set_attr (set_attr (set_attr (xml_clef (mei st1))
                                        xml_id x) ''shape'' shape) ''line'' line\<rparr>\<rparr>)"
          by (rule id_inv_set_clef[OF Id(2,3)])
             (simp add: attr_ids_set_attr_other attr_ids_set_attr_id)
        then have i2: "id_inv E st2" by (simp add: st2_def id_inv_def state_ids_def)
        have i3: "id_inv E (st2\<lparr>humdrum_string := h\<rparr>)" for h using i2 by simp
        have eq: "first_staff_block E staff st =
           (if humdrum E then
              (case map_of CLEFS_HUMDRUM (pitch c) of
                 None \<Rightarrow> raise st2 (KeyError (StrKey (pitch c)))
               | Some l \<Rightarrow>
                  (let st3 = st2\<lparr>humdrum_string := humdrum_string st2 @ [l]\<rparr>
                   in if flat then set_key_signature E st3 else Inr st3))
            else if flat then set_key_signature E st2
            else Inr st2)"
          unfolding st2_def using Inr r ClefDict sl sl' Id(1)
          by (simp add: first_staff_block_def Let_def split del: if_split cong: if_cong)
        show ?thesis
          unfolding eq
          using i2 i3 id_inv_outputs[OF i2] set_key_signature_ok[OF assms(1) i2]
            set_key_signature_ok[OF assms(1) i3]
          by (simp add: Let_def split: option.splits)
      qed
    qed
  qed
qed

lemma begin_staff_ok:
  assumes "good_pool (ids E)" and "id_inv E st"
  shows "ok E (begin_staff E staff st)"
proof -
  have i0: "id_inv E (st\<lparr>saved := False\<rparr>)" using assms(2) by simp
  show ?thesis
  proof (cases "first_staff st")
    case False
    then show ?thesis using assms(2) by (simp add: begin_staff_def Let_def)
  next
    case True
    show ?thesis
    proof (cases "first_staff_block E staff (st\<lparr>saved := False\<rparr>)")
      case (Inl a)
      then show ?thesis using True first_staff_block_ok[OF assms(1) i0, of staff]
        by (cases a) (simp add: begin_staff_def Let_def)
    next
      case (Inr st1)
      then show ?thesis using True first_staff_block_ok[OF assms(1) i0, of staff]
        by (simp add: begin_staff_def Let_def)
    qed
  qed
qed

lemma end_staff_ok:
  assumes "good_pool (ids E)" and "id_inv E st"
  shows "ok E (end_staff E ix_staff st)"
  using assms
proof (cases rule: alloc_cases[where prefix = "''barline''"])
  case (Raise e)
  then show ?thesis using assms(2) by (simp add: end_staff_def id_inv_outputs)
next
  case (Id x st1)
  have "id_inv E (add_child (Element ''barLine'' [(xml_id, x), (''visible'', ''false'')] []) st1)"
    by (rule id_inv_add_leaf[OF Id(2,3)]) simp
  then show ?thesis using Id(1) assms(2) by (simp add: end_staff_def)
qed

lemma ok_bind:
  assumes "ok E r" and "\<And>s. id_inv E s \<Longrightarrow> ok E (f s)"
  shows "ok E (case r of Inl e \<Rightarrow> Inl e | Inr s \<Rightarrow> f s)"
proof (cases r)
  case (Inl a)
  then show ?thesis using assms(1) by (cases a) simp
next
  case (Inr s)
  then have "id_inv E s" using assms(1) by simp
  from assms(2)[OF this] show ?thesis using Inr by simp
qed

lemma process_staff_ok:
  assumes "good_pool (ids E)" and "id_inv E st"
  shows "ok E (process_staff E ix_staff staff st)"
  unfolding process_staff_def
  by (intro ok_bind begin_staff_ok process_symbols_ok end_staff_ok assms)

lemma process_staffs_ok:
  assumes "good_pool (ids E)" and "id_inv E st"
  shows "ok E (process_staffs E ix_staff staffs st)"
  using assms(2)
proof (induction staffs arbitrary: ix_staff st)
  case Nil
  then show ?case by simp
next
  case (Cons staff rest)
  have "ok E (case process_staff E ix_staff staff st of
                Inl e \<Rightarrow> Inl e | Inr st' \<Rightarrow> process_staffs E (ix_staff + 1) rest st')"
    by (intro ok_bind process_staff_ok assms(1) Cons.prems Cons.IH)
  then show ?case by simp
qed

lemma initial_state_inv:
  assumes "good_pool (ids E)" and "create_mei_declarations (ids E) 0 = Inr (d, c)"
  shows "id_inv E (initial_state E d c)"
proof -
  from assms(2) obtain xs where n: "new_ids (ids E) 0
            [''mdiv'', ''score'', ''scoreDef'', ''staffGrp'', ''staffDef'', ''section'',
             ''staff'', ''layer''] = Inr (xs, c)"
    and d: "d = \<lparr>scaffold = xs, xml_clef = [], xml_keySign = [], xml_layer = []\<rparr>"
    by (auto simp add: create_mei_declarations_def split: sum.splits)
  from new_ids_fresh[OF assms(1) n] show ?thesis
    by (auto simp add: id_inv_def state_ids_def emitted_ids_def document_ids_def initial_state_def d)
qed

text \<open>
  Claim C8: in a run that starts with the counter at 0 and a pool whose entries are
  different from each other and ten characters long, the identifiers carried by the
  elements of all the documents that the run writes are pairwise different. This holds
  also for a run that ends with an exception, the \<open>IndexError\<close> of a used up pool
  included, for the documents written before it.
\<close>

theorem identifiers_distinct:
  assumes "good_pool pool"
  shows "distinct (emitted_ids (snd (convert_to_mei_and_humdrum pool symbols_and_pitches hum)))"
proof -
  obtain staffs labels where s: "convert_to_combined_list_with_metadata symbols_and_pitches = (staffs, labels)"
    by (cases "convert_to_combined_list_with_metadata symbols_and_pitches")
  define E where "E = \<lparr>ids = pool, humdrum = hum, stafflist = staffs, metadata = labels\<rparr>"
  have g: "good_pool (ids E)" using assms by (simp add: E_def)
  have p: "ids E = pool" by (simp add: E_def)
  show ?thesis
  proof (cases "staffs = []")
    case True
    then show ?thesis by (simp add: convert_to_mei_and_humdrum_def s emitted_ids_def)
  next
    case False
    show ?thesis
    proof (cases "create_mei_declarations pool 0")
      case (Inl e)
      then show ?thesis using False by (simp add: convert_to_mei_and_humdrum_def s emitted_ids_def)
    next
      case (Inr r)
      obtain d c where r: "r = (d, c)" by (cases r)
      have i: "id_inv E (initial_state E d c)"
        by (rule initial_state_inv[OF g]) (simp add: p Inr r)
      note k = process_staffs_ok[OF g i, of 0 staffs]
      show ?thesis
      proof (cases "process_staffs E 0 staffs (initial_state E d c)")
        case (Inl a)
        obtain e ws where a: "a = (e, ws)" by (cases a)
        have "distinct (emitted_ids ws)" using k Inl a by simp
        then show ?thesis using False Inr r Inl a
          by (simp add: convert_to_mei_and_humdrum_def s E_def[symmetric])
      next
        case st: (Inr st)
        have i': "id_inv E st" using k st by simp
        have "distinct (emitted_ids (outputs (if saved st then st
                                  else save_mei_file E (length staffs - 1) st)))"
          using i' by (simp add: save_mei_file_ids id_inv_outputs) (simp add: id_inv_def)
        then show ?thesis using False Inr r st
          by (simp add: convert_to_mei_and_humdrum_def s E_def[symmetric])
      qed
    qed
  qed
qed

lemma digit_char_inj:
  assumes "n < 10" and "m < 10" and "digit_char n = digit_char m"
  shows "n = m"
proof -
  have d: "distinct ''0123456789''" by simp
  have e: "''0123456789'' ! n = ''0123456789'' ! m" using assms(3) by (simp add: digit_char_def)
  have l: "n < length ''0123456789''" "m < length ''0123456789''" using assms(1,2) by simp_all
  show ?thesis using nth_eq_iff_index_eq[OF d l] e by blast
qed

lemma four_digits:
  fixes k :: nat
  assumes "k < 10000"
  shows "k = 1000 * (k div 1000 mod 10) + 100 * (k div 100 mod 10) + 10 * (k div 10 mod 10) + k mod 10"
proof -
  define x where "x = k div 10"
  define y where "y = x div 10"
  define z where "z = y div 10"
  have d: "k div 100 = y" "k div 1000 = z"
    by (simp_all add: x_def y_def z_def div_mult2_eq)
  have k: "k = 10 * x + k mod 10" by (simp add: x_def)
  have x: "x = 10 * y + x mod 10" by (simp add: y_def)
  have y: "y = 10 * z + y mod 10" by (simp add: z_def)
  have "z < 10" using assms unfolding d(2)[symmetric] by (simp add: less_mult_imp_div_less)
  then have z: "z mod 10 = z" by simp
  have "k = 1000 * z + 100 * (y mod 10) + 10 * (x mod 10) + k mod 10"
    using k x y by linarith
  then show ?thesis by (simp add: d z x_def[symmetric])
qed

lemma pool_entry_inj:
  assumes "k < 10000" and "k' < 10000" and "pool_entry k = pool_entry k'"
  shows "k = k'"
proof -
  from assms(3) have
    "digit_char (k div 1000 mod 10) = digit_char (k' div 1000 mod 10)"
    "digit_char (k div 100 mod 10) = digit_char (k' div 100 mod 10)"
    "digit_char (k div 10 mod 10) = digit_char (k' div 10 mod 10)"
    "digit_char (k mod 10) = digit_char (k' mod 10)"
    by (simp_all add: pool_entry_def)
  then have "k div 1000 mod 10 = k' div 1000 mod 10" "k div 100 mod 10 = k' div 100 mod 10"
    "k div 10 mod 10 = k' div 10 mod 10" "k mod 10 = k' mod 10"
    by (auto intro!: digit_char_inj)
  then show ?thesis using four_digits[OF assms(1)] four_digits[OF assms(2)] by simp
qed

lemma good_example_pool: "good_pool example_pool"
proof -
  have i: "inj_on pool_entry (set [0..<10000])"
    by (rule inj_onI) (simp add: pool_entry_inj)
  have "distinct (map pool_entry [0..<10000])"
    unfolding distinct_map using i distinct_upt by blast
  moreover have "list_all (\<lambda>e. length e = 10) (map pool_entry [0..<10000])"
    by (simp add: list_all_iff pool_entry_def)
  ultimately show ?thesis by (simp add: good_pool_def example_pool_def)
qed


theorem identifiers_distinct_witness:
  "good_pool example_pool
   \<and> distinct (emitted_ids (snd (convert_to_mei_and_humdrum example_pool
        [(''p1'', [[clef_symbol ''c-c-g'', note_symbol ''li'' ''g1'', note_symbol ''mi'' ''a1'',
                    plain_symbol ''bar''],
                   [note_symbol ''mi'' ''g1'']])] False)))
   \<and> length (emitted_ids (snd (convert_to_mei_and_humdrum example_pool
        [(''p1'', [[clef_symbol ''c-c-g'', note_symbol ''li'' ''g1'', note_symbol ''mi'' ''a1'',
                    plain_symbol ''bar''],
                   [note_symbol ''mi'' ''g1'']])] False))) = 23"
proof -
  have "length (emitted_ids (snd (convert_to_mei_and_humdrum example_pool
        [(''p1'', [[clef_symbol ''c-c-g'', note_symbol ''li'' ''g1'', note_symbol ''mi'' ''a1'',
                    plain_symbol ''bar''],
                   [note_symbol ''mi'' ''g1'']])] False))) = 23"
    by (simp add: run_defs emitted_ids_def document_ids_def attr_ids_def cong: let_weak_cong)
  then show ?thesis using identifiers_distinct[OF good_example_pool] good_example_pool by simp
qed

end
